theory Spec2Isabelle
  imports Main "HOL-Library.AList"
begin

section \<open>Annotated data: the container of \<^verbatim>\<open>scanpy/classes/ann_data.py\<close>\<close>

text \<open>
  The development embeds \<^verbatim>\<open>StorageType\<close>, \<^verbatim>\<open>BoundRecArr\<close>, \<^verbatim>\<open>_check_dimensions\<close>
  and \<^verbatim>\<open>AnnData\<close> of \<^verbatim>\<open>ann_data.py\<close> and \<^verbatim>\<open>odict_merge\<close> of \<^verbatim>\<open>utils.py\<close>.
  Every \<^verbatim>\<open>raise\<close> of the source, and every exception of the numpy and Python
  operations it calls, is a value \<open>Inl e\<close>; mutable objects whose identity matters
  (the matrix \<^verbatim>\<open>X\<close> and the dict \<^verbatim>\<open>add\<close>) live in an explicit heap.
\<close>

subsection \<open>Exceptions\<close>

datatype error =
    ValueError string
  | IndexError string
  | KeyError string
  | TypeError string
  | AttributeError string
  | AssertionError

text \<open>Sequencing: an exception of the first step is the exception of the whole.\<close>

definition ebind :: "error + 'a \<Rightarrow> ('a \<Rightarrow> error + 'b) \<Rightarrow> error + 'b" where
  "ebind m f = (case m of Inl e \<Rightarrow> Inl e | Inr x \<Rightarrow> f x)"

subsection \<open>Storage types\<close>

text \<open>
  The runtime class of the object passed as \<^verbatim>\<open>X\<close>. \<open>OtherClass\<close> stands for any
  class that is none of the three array classes (a list, \<^verbatim>\<open>None\<close>, ...).
  \<open>issubclass\<close> is the subclass relation of these classes in numpy and scipy:
  \<^verbatim>\<open>numpy.ma.MaskedArray\<close> is declared as \<^verbatim>\<open>class MaskedArray(ndarray)\<close>.
\<close>

datatype pyclass = ndarray | MaskedArray | spmatrix | OtherClass

fun issubclass :: "pyclass \<Rightarrow> pyclass \<Rightarrow> bool" where
  "issubclass MaskedArray ndarray = True"
| "issubclass c d = (c = d)"

text \<open>
  \<^verbatim>\<open>
  class StorageType(Enum):
      Array = np.ndarray
      Masked = ma.MaskedArray
      Sparse = sp.spmatrix
      @classmethod
      def classes(cls):
          return tuple(c.value for c in cls.__members__.values())
  \<close>
  \<open>members\<close> is the enumeration in definition order, which is the order in which
  \<^verbatim>\<open>for s_type in StorageType\<close> iterates.
\<close>

datatype StorageType = Array | Masked | Sparse

fun storage_value :: "StorageType \<Rightarrow> pyclass" where
  "storage_value Array = ndarray"
| "storage_value Masked = MaskedArray"
| "storage_value Sparse = spmatrix"

definition members :: "StorageType list" where
  "members = [Array, Masked, Sparse]"

definition classes :: "pyclass list" where
  "classes = map storage_value members"

fun class_name :: "pyclass \<Rightarrow> string" where
  "class_name ndarray = ''ndarray''"
| "class_name MaskedArray = ''MaskedArray''"
| "class_name spmatrix = ''spmatrix''"
| "class_name OtherClass = ''object''"

fun join :: "string \<Rightarrow> string list \<Rightarrow> string" where
  "join sep [] = []"
| "join sep [x] = x"
| "join sep (x # y # ys) = x @ sep @ join sep (y # ys)"

text \<open>
  The \<^verbatim>\<open>for ... else\<close> loop of \<^verbatim>\<open>__init__\<close> that checks the data type of \<^verbatim>\<open>X\<close>:
  the first member whose class \<^verbatim>\<open>X\<close> is an instance of wins; when the loop runs
  out, the \<^verbatim>\<open>else\<close> branch raises.
\<close>

fun first_match :: "pyclass \<Rightarrow> StorageType list \<Rightarrow> StorageType option" where
  "first_match c [] = None"
| "first_match c (s # ss) =
     (if issubclass c (storage_value s) then Some s else first_match c ss)"

definition type_error_message :: string where
  "type_error_message =
     ''X needs to be of one of the following types ['' @
     join '', '' (map class_name classes) @ '']''"

definition check_storage_type :: "pyclass \<Rightarrow> error + StorageType" where
  "check_storage_type c =
     (case first_match c members of
        Some s \<Rightarrow> Inr s
      | None \<Rightarrow> Inl (ValueError type_error_message))"

subsection \<open>Matrices and the heap\<close>

text \<open>
  The content of an array object, by rank: a 1-D array, a 2-D array with its shape
  \<open>(r, c)\<close> and its rows, or an array of any other rank (only its shape matters:
  the constructor rejects it). Elements are integers. A sparse matrix is modelled by
  its dense content, and indexing it is taken to select as indexing the dense array
  does; record dtypes (\<^verbatim>\<open>X.dtype.names\<close> not \<^verbatim>\<open>None\<close>) are not modelled.
\<close>

datatype arr = Arr1 "int list" | Arr2 nat nat "int list list" | ArrN "nat list"

fun shape :: "arr \<Rightarrow> nat list" where
  "shape (Arr1 xs) = [length xs]"
| "shape (Arr2 r c rows) = [r, c]"
| "shape (ArrN s) = s"

fun wf_arr :: "arr \<Rightarrow> bool" where
  "wf_arr (Arr1 xs) = True"
| "wf_arr (Arr2 r c rows) = (length rows = r \<and> list_all (\<lambda>row. length row = c) rows)"
| "wf_arr (ArrN s) = (length s \<noteq> 1 \<and> length s \<noteq> 2)"

text \<open>\<^verbatim>\<open>X.shape = (X.shape[0], 1)\<close> on a 1-D array: the same buffer, read as one column.\<close>

fun as_column :: "arr \<Rightarrow> arr" where
  "as_column (Arr1 xs) = Arr2 (length xs) 1 (map (\<lambda>x. [x]) xs)"
| "as_column a = a"

text \<open>\<^verbatim>\<open>X.T\<close> of a 2-D array.\<close>

fun arr_T :: "arr \<Rightarrow> arr" where
  "arr_T (Arr2 r c rows) = Arr2 c r (map (\<lambda>j. map (\<lambda>i. rows ! i ! j) [0..<r]) [0..<c])"
| "arr_T a = a"

record pyobject =
  cls :: pyclass
  arr :: arr

text \<open>
  Columns of an annotation table are homogeneous numpy arrays: \<^verbatim>\<open>int64\<close> or
  unicode. Python values that occur in the dicts: \<open>PCol\<close> is a 1-D sequence,
  \<open>PDict\<close> a nested annotation mapping (column name to 1-D sequence), \<open>PRef\<close> a
  reference to an array object of the heap.
\<close>

datatype column = IntCol "int list" | StrCol "string list"

fun col_len :: "column \<Rightarrow> nat" where
  "col_len (IntCol xs) = length xs"
| "col_len (StrCol xs) = length xs"

datatype pyval =
    PNone
  | PInt int
  | PStr string
  | PCol column
  | PDict "(string \<times> column) list"
  | PRef nat

type_synonym dict = "(string \<times> pyval) list"

text \<open>
  The heap: array objects and dict objects, addressed by their index. Allocation
  appends, so the address of a new object is the length before.
\<close>

record heap =
  arrays :: "pyobject list"
  dicts :: "dict list"

definition new_array :: "pyobject \<Rightarrow> heap \<Rightarrow> nat \<times> heap" where
  "new_array ob h = (length (arrays h), h\<lparr>arrays := arrays h @ [ob]\<rparr>)"

definition new_dict :: "dict \<Rightarrow> heap \<Rightarrow> nat \<times> heap" where
  "new_dict d h = (length (dicts h), h\<lparr>dicts := dicts h @ [d]\<rparr>)"

definition class_of :: "heap \<Rightarrow> pyval \<Rightarrow> pyclass" where
  "class_of h v =
     (case v of
        PRef a \<Rightarrow> (if a < length (arrays h) then cls (arrays h ! a) else OtherClass)
      | _ \<Rightarrow> OtherClass)"

subsection \<open>\<^verbatim>\<open>odict_merge\<close> (utils.py)\<close>

text \<open>
  \<^verbatim>\<open>
  def odict_merge(*ds):
      merged = OrderedDict()
      for d in ds:
          for k, v in d.items():
              merged[k] = v
      return merged
  \<close>
  An \<^verbatim>\<open>OrderedDict\<close> is an association list with distinct keys; \<^verbatim>\<open>merged[k] = v\<close>
  overwrites the value of a key in place and appends a new key (\<open>AList.update\<close>).
\<close>

definition odict_merge :: "('k \<times> 'v) list list \<Rightarrow> ('k \<times> 'v) list" where
  "odict_merge ds =
     fold (\<lambda>d merged. fold (\<lambda>(k, v) merged. AList.update k v merged) d merged) ds []"

subsection \<open>\<^verbatim>\<open>BoundRecArr\<close>: the annotation table\<close>

definition SMP_NAMES :: string where
  "SMP_NAMES = ''smp_names''"

definition VAR_NAMES :: string where
  "VAR_NAMES = ''var_names''"

text \<open>
  A record array: its field names (\<^verbatim>\<open>dtype.names\<close>), one column per field, and the
  attribute \<^verbatim>\<open>_name_col\<close>. The dtype of a field is the kind of its column. The
  back-reference \<^verbatim>\<open>_parent\<close> is only used to rebind the table after a field was
  appended, and is left out.
\<close>

record recarr =
  names :: "string list"
  cols :: "column list"
  name_col :: string

text \<open>\<^verbatim>\<open>len(self)\<close>: every column of a record array has the array's length.\<close>

definition len :: "recarr \<Rightarrow> nat" where
  "len r = (case cols r of [] \<Rightarrow> 0 | c # _ \<Rightarrow> col_len c)"

text \<open>\<^verbatim>\<open>self[name]\<close> for a field name: \<^verbatim>\<open>ValueError\<close> when there is no such field.\<close>

definition field :: "recarr \<Rightarrow> string \<Rightarrow> error + column" where
  "field r n =
     (case map_of (zip (names r) (cols r)) n of
        None \<Rightarrow> Inl (ValueError ''no field of name'')
      | Some c \<Rightarrow> Inr c)"

definition arange :: "nat \<Rightarrow> column" where
  "arange n = IntCol (map int [0..<n])"

text \<open>
  \<^verbatim>\<open>np.asarray(col)\<close> for a value of an annotation mapping. Only 1-D sequences are
  modelled as columns; any other value is answered with the \<^verbatim>\<open>TypeError\<close> that
  \<^verbatim>\<open>len\<close> raises on a 0-d array.
\<close>

fun asarray :: "pyval \<Rightarrow> error + column" where
  "asarray (PCol c) = Inr c"
| "asarray v = Inl (TypeError ''len() of unsized object'')"

fun mapM :: "('a \<Rightarrow> error + 'b) \<Rightarrow> 'a list \<Rightarrow> error + 'b list" where
  "mapM f [] = Inr []"
| "mapM f (x # xs) =
     (case f x of
        Inl e \<Rightarrow> Inl e
      | Inr y \<Rightarrow> (case mapM f xs of Inl e \<Rightarrow> Inl e | Inr ys \<Rightarrow> Inr (y # ys)))"

text \<open>
  \<^verbatim>\<open>arr[name] = np.array(cols[i])\<close> on an array of length \<open>n\<close>: numpy broadcasts
  a column of length 1, and raises \<^verbatim>\<open>ValueError\<close> for any other length but \<open>n\<close>.
\<close>

fun broadcast_to :: "nat \<Rightarrow> column \<Rightarrow> error + column" where
  "broadcast_to n (IntCol xs) =
     (if length xs = n then Inr (IntCol xs)
      else if length xs = 1 then Inr (IntCol (replicate n (hd xs)))
      else Inl (ValueError ''could not broadcast input array''))"
| "broadcast_to n (StrCol xs) =
     (if length xs = n then Inr (StrCol xs)
      else if length xs = 1 then Inr (StrCol (replicate n (hd xs)))
      else Inl (ValueError ''could not broadcast input array''))"

text \<open>
  The \<^verbatim>\<open>source\<close> argument of \<^verbatim>\<open>BoundRecArr.__new__\<close>: \<^verbatim>\<open>None\<close>, a plain
  \<^verbatim>\<open>np.recarray\<close>, a \<^verbatim>\<open>BoundRecArr\<close> (which is a \<^verbatim>\<open>np.recarray\<close> too), a
  \<^verbatim>\<open>Mapping\<close> (in key order), or anything else.
\<close>

datatype source = SNone | SRec recarr | SBound recarr | SMap dict | SOther

text \<open>
  \<^verbatim>\<open>
  def __new__(cls, source, name_col, parent, n_row=None):
      if source is None:  # empty array
          cols = [np.arange(n_row)]
          dtype = [(name_col, 'int64')]
      elif isinstance(source, np.recarray):
          cols = [source[n] for n in source.dtype.names]
          dtype = source.dtype
      else:
          if not isinstance(source, Mapping):
              raise ValueError(...)
          names = list(source.keys())
          cols = [np.asarray(col) for col in source.values()]
          if name_col not in source:
              names.append(name_col)
              cols.append(np.arange(len(cols[0]) if cols else n_row))
          dtype = list(zip(names, [str(c.dtype) for c in cols]))
      ...
      arr = np.recarray.__new__(cls, (len(cols[0]),), dtype)
      arr._parent = parent
      arr._name_col = name_col
      for i, name in enumerate(dtype.names):
          arr[name] = np.array(cols[i])
      return arr
  \<close>
  \<open>columns_of\<close> is the part up to \<^verbatim>\<open>dtype\<close>; \<^verbatim>\<open>np.arange(None)\<close> raises
  \<^verbatim>\<open>TypeError\<close>.
\<close>

definition arange_opt :: "nat option \<Rightarrow> error + column" where
  "arange_opt n_row =
     (case n_row of
        None \<Rightarrow> Inl (TypeError ''unsupported operand type(s) for arange'')
      | Some n \<Rightarrow> Inr (arange n))"

definition columns_of ::
  "source \<Rightarrow> string \<Rightarrow> nat option \<Rightarrow> error + (string list \<times> column list)" where
  "columns_of src ncol n_row =
     (case src of
        SNone \<Rightarrow>
          (case arange_opt n_row of Inl e \<Rightarrow> Inl e | Inr c \<Rightarrow> Inr ([ncol], [c]))
      | SRec r \<Rightarrow> Inr (names r, cols r)
      | SBound r \<Rightarrow> Inr (names r, cols r)
      | SOther \<Rightarrow> Inl (ValueError ''meta needs to be a recarray or dictlike'')
      | SMap m \<Rightarrow>
          (case mapM asarray (map snd m) of
             Inl e \<Rightarrow> Inl e
           | Inr cs \<Rightarrow>
               if ncol \<in> set (map fst m) then Inr (map fst m, cs)
               else
                 (case (case cs of [] \<Rightarrow> arange_opt n_row | c # _ \<Rightarrow> Inr (arange (col_len c))) of
                    Inl e \<Rightarrow> Inl e
                  | Inr ids \<Rightarrow> Inr (map fst m @ [ncol], cs @ [ids]))))"

definition BoundRecArr :: "source \<Rightarrow> string \<Rightarrow> nat option \<Rightarrow> error + recarr" where
  "BoundRecArr src ncol n_row =
     (case columns_of src ncol n_row of
        Inl e \<Rightarrow> Inl e
      | Inr (ns, cs) \<Rightarrow>
          (case cs of
             [] \<Rightarrow> Inl (IndexError ''list index out of range'')
           | c0 # _ \<Rightarrow>
               (case mapM (broadcast_to (col_len c0)) cs of
                  Inl e \<Rightarrow> Inl e
                | Inr cs' \<Rightarrow> Inr \<lparr>names = ns, cols = cs', name_col = ncol\<rparr>)))"

text \<open>
  \<^verbatim>\<open>
  def flipped(self):
      old_name_col = self._name_col
      new_name_col = SMP_NAMES if old_name_col == VAR_NAMES else VAR_NAMES
      flipped = BoundRecArr(self, new_name_col, self._parent, len(self))
      flipped.dtype.names = tuple(
          new_name_col if n == old_name_col else n
          for n in self.dtype.names)
      return flipped
  \<close>
  The new array has a dtype of its own (\<^verbatim>\<open>test_transpose\<close> reads the old names from
  the original afterwards), so \<open>flipped\<close> returns a new table. Assigning
  \<^verbatim>\<open>dtype.names\<close> raises \<^verbatim>\<open>ValueError\<close> when two of the new names are equal.
\<close>

definition flipped :: "recarr \<Rightarrow> error + recarr" where
  "flipped self =
     (let old_name_col = name_col self;
          new_name_col = (if old_name_col = VAR_NAMES then SMP_NAMES else VAR_NAMES)
      in case BoundRecArr (SBound self) new_name_col (Some (len self)) of
           Inl e \<Rightarrow> Inl e
         | Inr fl \<Rightarrow>
             (let ns = map (\<lambda>n. if n = old_name_col then new_name_col else n) (names self)
              in if distinct ns then Inr (fl\<lparr>names := ns\<rparr>)
                 else Inl (ValueError ''Duplicate field names given.'')))"

text \<open>\<^verbatim>\<open>columns\<close>: the field names but the name column.\<close>

definition columns :: "recarr \<Rightarrow> string list" where
  "columns self = filter (\<lambda>c. c \<noteq> name_col self) (names self)"

text \<open>
  \<^verbatim>\<open>
  def _check_dimensions(data, smp, var):
      n_smp, n_var = data.shape
      if len(smp) != n_smp:
          raise ValueError('Sample metadata needs to have the same amount of rows ...')
      if len(var) != n_var:
          raise ValueError('Feature metadata needs to have the same amount of rows ...')
  \<close>
\<close>

definition check_dimensions :: "arr \<Rightarrow> recarr \<Rightarrow> recarr \<Rightarrow> error + unit" where
  "check_dimensions data smp var =
     (case shape data of
        [n_smp, n_var] \<Rightarrow>
          if len smp \<noteq> n_smp then Inl (ValueError ''Sample metadata needs to have the same amount of rows as data has'')
          else if len var \<noteq> n_var then Inl (ValueError ''Feature metadata needs to have the same amount of rows as data has columns'')
          else Inr ()
      | _ \<Rightarrow> Inl (ValueError ''wrong number of values to unpack''))"

subsection \<open>\<^verbatim>\<open>AnnData\<close>: construction\<close>

text \<open>
  The instance: \<^verbatim>\<open>X\<close> and \<^verbatim>\<open>add\<close> are references into the heap, the two tables
  are held by value.
\<close>

record AnnData =
  storage_type :: StorageType
  X :: nat
  smp :: recarr
  var :: recarr
  add :: nat

text \<open>\<^verbatim>\<open>add.get(k, {})\<close> followed by \<^verbatim>\<open>.items()\<close> inside \<^verbatim>\<open>odict_merge\<close>.\<close>

definition get_items :: "dict \<Rightarrow> string \<Rightarrow> error + dict" where
  "get_items d k =
     (case map_of d k of
        None \<Rightarrow> Inr []
      | Some (PDict m) \<Rightarrow> Inr (map (\<lambda>(n, c). (n, PCol c)) m)
      | Some _ \<Rightarrow> Inl (AttributeError ''object has no attribute items''))"

text \<open>
  \<^verbatim>\<open>
  def from_ddata(self, ddata):
      smp, var = OrderedDict(), OrderedDict()
      add = dict(ddata.items())
      del ddata
      X = add['X']
      del add['X']
      if 'row_names' in add:
          smp['smp_names'] = add['row_names']
          del add['row_names']
      elif 'smp_names' in add:
          smp['smp_names'] = add['smp_names']
          del add['smp_names']
      if 'col_names' in add:
          var['var_names'] = add['col_names']
          del add['col_names']
      elif 'var_names' in add:
          var['var_names'] = add['var_names']
          del add['var_names']
      smp = odict_merge(smp, add.get('row', {}), add.get('smp', {}))
      var = odict_merge(var, add.get('col', {}), add.get('var', {}))
      for k in ['row', 'smp', 'col', 'var']:
          if k in add:
              del add[k]
      return X, smp, var, add
  \<close>
  \<open>pop_names\<close> is one of the two \<^verbatim>\<open>if ... elif\<close> blocks: it returns the one-entry
  (or empty) ordered dict and \<^verbatim>\<open>add\<close> without the key that was used.
\<close>

definition pop_names :: "dict \<Rightarrow> string \<Rightarrow> string \<Rightarrow> string \<Rightarrow> dict \<times> dict" where
  "pop_names d alias name target =
     (case map_of d alias of
        Some v \<Rightarrow> ([(target, v)], AList.delete alias d)
      | None \<Rightarrow>
          (case map_of d name of
             Some v \<Rightarrow> ([(target, v)], AList.delete name d)
           | None \<Rightarrow> ([], d)))"

definition from_ddata :: "dict \<Rightarrow> error + (pyval \<times> dict \<times> dict \<times> dict)" where
  "from_ddata ddata =
     (case map_of ddata ''X'' of
        None \<Rightarrow> Inl (KeyError ''X'')
      | Some x \<Rightarrow>
          (let add0 = AList.delete ''X'' ddata;
               (smp0, add1) = pop_names add0 ''row_names'' ''smp_names'' ''smp_names'';
               (var0, add2) = pop_names add1 ''col_names'' ''var_names'' ''var_names''
           in ebind (get_items add2 ''row'') (\<lambda>row.
              ebind (get_items add2 ''smp'') (\<lambda>smp1.
              ebind (get_items add2 ''col'') (\<lambda>col.
              ebind (get_items add2 ''var'') (\<lambda>var1.
                Inr (x,
                     odict_merge [smp0, row, smp1],
                     odict_merge [var0, col, var1],
                     fold AList.delete [''row'', ''smp'', ''col'', ''var''] add2)))))))"

text \<open>
  Truth values in \<^verbatim>\<open>any((smp, var, add))\<close>: \<^verbatim>\<open>None\<close> and an empty dict are false. A
  record array counts as true when it is not empty (for more than one row numpy raises
  \<^verbatim>\<open>ValueError\<close> itself, the exception of the branch).
\<close>

fun truthy :: "source \<Rightarrow> bool" where
  "truthy SNone = False"
| "truthy (SMap m) = (m \<noteq> [])"
| "truthy (SRec r) = (0 < len r)"
| "truthy (SBound r) = (0 < len r)"
| "truthy SOther = True"

text \<open>
  The first argument of the constructor: a \<^verbatim>\<open>Mapping\<close> with arbitrary values, or any
  other value (a nested annotation mapping \<open>PDict\<close> is a \<^verbatim>\<open>Mapping\<close> as well).
\<close>

datatype ctor_arg = Ddata dict | Xarg pyval

fun as_mapping :: "ctor_arg \<Rightarrow> dict option" where
  "as_mapping (Ddata d) = Some d"
| "as_mapping (Xarg (PDict m)) = Some (map (\<lambda>(n, c). (n, PCol c)) m)"
| "as_mapping (Xarg v) = None"

fun the_value :: "ctor_arg \<Rightarrow> pyval" where
  "the_value (Xarg v) = v"
| "the_value (Ddata d) = PNone"

text \<open>
  The part of \<^verbatim>\<open>__init__\<close> after the \<^verbatim>\<open>if isinstance(ddata_or_X, Mapping)\<close> block:
  \<^verbatim>\<open>
  for s_type in StorageType:
      if isinstance(X, s_type.value):
          self.storage_type = s_type
          break
  else:
      class_names = ', '.join(c.__name__ for c in StorageType.classes())
      raise ValueError('X needs to be of one of the following types [{}] not {}' ...)
  if len(X.shape) == 1:
      X.shape = (X.shape[0], 1)
  if X.dtype.names is None and len(X.shape) != 2:
      raise ValueError('X needs to be 2-dimensional, not {}D'.format(len(X.shape)))
  n_smp, n_var = X.shape
  self.X = X
  self.smp = BoundRecArr(smp, SMP_NAMES, self, n_smp)
  self.var = BoundRecArr(var, VAR_NAMES, self, n_var)
  _check_dimensions(X, self.smp, self.var)
  self.add = add
  \<close>
  Assigning \<^verbatim>\<open>X.shape\<close> changes the object \<^verbatim>\<open>X\<close> refers to, in the heap. \<^verbatim>\<open>add\<close> is
  the dict that Python builds for the keyword arguments of this call (or the dict
  built by \<^verbatim>\<open>from_ddata\<close>): a new object.
\<close>

definition init_body ::
  "heap \<Rightarrow> pyval \<Rightarrow> source \<Rightarrow> source \<Rightarrow> dict \<Rightarrow> error + (AnnData \<times> heap)" where
  "init_body h x s v kw =
     (case check_storage_type (class_of h x) of
        Inl e \<Rightarrow> Inl e
      | Inr st \<Rightarrow>
          (case x of
             PRef a \<Rightarrow>
               (let ob = arrays h ! a;
                    h1 = (if length (shape (arr ob)) = 1
                          then h\<lparr>arrays := (arrays h)[a := ob\<lparr>arr := as_column (arr ob)\<rparr>]\<rparr>
                          else h);
                    data = arr (arrays h1 ! a)
                in case shape data of
                     [n_smp, n_var] \<Rightarrow>
                       ebind (BoundRecArr s SMP_NAMES (Some n_smp)) (\<lambda>smp1.
                       ebind (BoundRecArr v VAR_NAMES (Some n_var)) (\<lambda>var1.
                       ebind (check_dimensions data smp1 var1) (\<lambda>u.
                         (let (d, h2) = new_dict kw h1
                          in Inr (\<lparr>storage_type = st, X = a, smp = smp1, var = var1, add = d\<rparr>, h2)))))
                   | _ \<Rightarrow> Inl (ValueError ''X needs to be 2-dimensional''))
           | _ \<Rightarrow> Inl (ValueError type_error_message)))"

text \<open>
  \<^verbatim>\<open>
  def __init__(self, ddata_or_X=None, smp=None, var=None, **add):
      if isinstance(ddata_or_X, Mapping):
          if any((smp, var, add)):
              raise ValueError('If ddata_or_X is a dict, it needs to contain all metadata')
          X, smp, var, add = self.from_ddata(ddata_or_X)
      else:
          X = ddata_or_X
      ...
  \<close>
\<close>

definition init ::
  "heap \<Rightarrow> ctor_arg \<Rightarrow> source \<Rightarrow> source \<Rightarrow> dict \<Rightarrow> error + (AnnData \<times> heap)" where
  "init h ddata_or_X s v kw =
     (case as_mapping ddata_or_X of
        Some ddata \<Rightarrow>
          if truthy s \<or> truthy v \<or> kw \<noteq> []
          then Inl (ValueError ''If ddata_or_X is a dict, it needs to contain all metadata'')
          else
            (case from_ddata ddata of
               Inl e \<Rightarrow> Inl e
             | Inr (x, smp1, var1, add1) \<Rightarrow> init_body h x (SMap smp1) (SMap var1) add1)
      | None \<Rightarrow> init_body h (the_value ddata_or_X) s v kw)"

text \<open>
  A call \<^verbatim>\<open>AnnData(X, smp, var, **kw)\<close>: Python raises \<^verbatim>\<open>TypeError\<close> when a key of
  \<^verbatim>\<open>kw\<close> is the name of a parameter that is bound already.
\<close>

definition call_AnnData ::
  "heap \<Rightarrow> pyval \<Rightarrow> source \<Rightarrow> source \<Rightarrow> dict \<Rightarrow> error + (AnnData \<times> heap)" where
  "call_AnnData h x s v kw =
     (if list_ex (\<lambda>k. k \<in> set (map fst kw)) [''self'', ''ddata_or_X'', ''smp'', ''var'']
      then Inl (TypeError ''__init__() got multiple values for argument'')
      else init h (Xarg x) s v kw)"

subsection \<open>Index normalisation\<close>

text \<open>
  What can stand as a slice bound or as an element of a sequence: \<^verbatim>\<open>None\<close>, an
  integer, a string, a boolean. An index of one axis is a slice, an integer, a string,
  a sequence (a list, or an array that is not boolean), a boolean array, or an object
  of any other type. A packed index is a bare index or a tuple of indices.
\<close>

datatype elem = ENone | EInt int | EStr string | EBool bool

datatype index =
    ISlice elem elem "int option"
  | IInt int
  | IStr string
  | ISeq "elem list"
  | IBoolArr "bool list"
  | IOther

datatype packed_index = Single index | Tuple "index list"

text \<open>A normalised index: \<^verbatim>\<open>slice(start, stop, step)\<close> or an \<^verbatim>\<open>int64\<close> array.\<close>

datatype norm = NSlice "int option" "int option" "int option" | NArray "int list"

definition all_slice :: index where
  "all_slice = ISlice ENone ENone None"

text \<open>
  \<^verbatim>\<open>IndexMixin._unpack_index\<close> of scipy, which \<^verbatim>\<open>_normalize_indices\<close> calls first: a
  bare index is a row index with all columns, a tuple must have one or two entries,
  and a boolean array is replaced by the array of the positions where it is true
  (\<^verbatim>\<open>_boolean_index_to_array\<close>: \<^verbatim>\<open>i.nonzero()[0]\<close>).
\<close>

definition nonzero :: "bool list \<Rightarrow> nat list" where
  "nonzero m = filter (\<lambda>i. m ! i) [0..<length m]"

fun check_boolean :: "index \<Rightarrow> index" where
  "check_boolean (IBoolArr m) = ISeq (map (\<lambda>i. EInt (int i)) (nonzero m))"
| "check_boolean i = i"

fun unpack_index :: "packed_index \<Rightarrow> error + (index \<times> index)" where
  "unpack_index (Single i) = Inr (check_boolean i, all_slice)"
| "unpack_index (Tuple [r]) = Inr (check_boolean r, all_slice)"
| "unpack_index (Tuple [r, c]) = Inr (check_boolean r, check_boolean c)"
| "unpack_index (Tuple is) = Inl (IndexError ''invalid number of indices'')"

text \<open>
  \<^verbatim>\<open>
  def name_idx(i):
      if isinstance(i, str):
          # `where` returns an 1-tuple (1D array) of found indices
          i = np.where(names == i)[0][0]
          if i is None:
              raise IndexError('Index {} not in smp_names/var_names'.format(index))
      return i
  \<close>
  \<^verbatim>\<open>np.where(names == i)[0]\<close> is the array of the positions whose name is \<open>i\<close>;
  taking its element 0 raises \<^verbatim>\<open>IndexError\<close> when it is empty. An integer name
  column is equal to a string nowhere.
\<close>

fun where_eq :: "column \<Rightarrow> string \<Rightarrow> nat list" where
  "where_eq (StrCol xs) s = filter (\<lambda>i. xs ! i = s) [0..<length xs]"
| "where_eq (IntCol xs) s = []"

fun name_idx :: "column \<Rightarrow> elem \<Rightarrow> error + elem" where
  "name_idx nms (EStr s) =
     (case where_eq nms s of
        [] \<Rightarrow> Inl (IndexError ''index 0 is out of bounds for axis 0 with size 0'')
      | p # ps \<Rightarrow> Inr (EInt (int p)))"
| "name_idx nms i = Inr i"

text \<open>A resolved slice bound: \<^verbatim>\<open>None\<close> or an integer (\<^verbatim>\<open>bool\<close> is an \<^verbatim>\<open>int\<close>).\<close>

fun as_bound :: "elem \<Rightarrow> int option" where
  "as_bound ENone = None"
| "as_bound (EInt i) = Some i"
| "as_bound (EBool b) = Some (if b then 1 else 0)"
| "as_bound (EStr s) = None"

text \<open>An element that \<^verbatim>\<open>np.fromiter(..., 'int64')\<close> stores.\<close>

fun as_int64 :: "elem \<Rightarrow> error + int" where
  "as_int64 (EInt i) = Inr i"
| "as_int64 (EBool b) = Inr (if b then 1 else 0)"
| "as_int64 e = Inl (TypeError ''int() argument must be a string, a bytes-like object or a number'')"

fun is_str :: "elem \<Rightarrow> bool" where
  "is_str (EStr s) = True"
| "is_str e = False"

text \<open>
  \<^verbatim>\<open>
  def _normalize_index(self, index, names):
      ...
      if isinstance(index, slice):
          start = name_idx(index.start)
          stop = name_idx(index.stop)
          # string slices can only be inclusive, so +1 in that case
          if isinstance(index.stop, str):
              stop = None if stop is None else stop + 1
          step = index.step
      elif isinstance(index, (int, str)):
          start = name_idx(index)
          stop = start + 1
          step = 1
      elif isinstance(index, (Sequence, np.ndarray)):
          return np.fromiter(map(name_idx, index), 'int64')
      else:
          raise IndexError('Unknown index {!r} of type {}'.format(index, type(index)))
      return slice(start, stop, step)
  \<close>
\<close>

fun normalize_index :: "index \<Rightarrow> column \<Rightarrow> error + norm" where
  "normalize_index (ISlice b1 b2 step) nms =
     ebind (name_idx nms b1) (\<lambda>start.
     ebind (name_idx nms b2) (\<lambda>stop.
       Inr (NSlice (as_bound start)
                   (if is_str b2 then map_option (\<lambda>i. i + 1) (as_bound stop) else as_bound stop)
                   step)))"
| "normalize_index (IInt i) nms = Inr (NSlice (Some i) (Some (i + 1)) (Some 1))"
| "normalize_index (IStr s) nms =
     ebind (name_idx nms (EStr s)) (\<lambda>start.
       Inr (NSlice (as_bound start) (map_option (\<lambda>i. i + 1) (as_bound start)) (Some 1)))"
| "normalize_index (ISeq es) nms =
     ebind (mapM (\<lambda>e. ebind (name_idx nms e) as_int64) es) (\<lambda>is. Inr (NArray is))"
| "normalize_index (IBoolArr m) nms = Inr (NArray (map (\<lambda>b. if b then 1 else 0) m))"
| "normalize_index IOther nms = Inl (IndexError ''Unknown index'')"

text \<open>
  \<^verbatim>\<open>
  def _normalize_indices(self, packed_index):
      smp, var = super(AnnData, self)._unpack_index(packed_index)
      smp = self._normalize_index(smp, self.smp_names)
      var = self._normalize_index(var, self.var_names)
      return smp, var
  \<close>
  \<^verbatim>\<open>self.smp_names\<close> is \<^verbatim>\<open>self.smp[SMP_NAMES]\<close>.
\<close>

definition smp_names :: "AnnData \<Rightarrow> error + column" where
  "smp_names self = field (smp self) SMP_NAMES"

definition var_names :: "AnnData \<Rightarrow> error + column" where
  "var_names self = field (var self) VAR_NAMES"

definition normalize_indices :: "AnnData \<Rightarrow> packed_index \<Rightarrow> error + (norm \<times> norm)" where
  "normalize_indices self packed =
     ebind (unpack_index packed) (\<lambda>(s, v).
     ebind (smp_names self) (\<lambda>sn.
     ebind (normalize_index s sn) (\<lambda>s'.
     ebind (var_names self) (\<lambda>vn.
     ebind (normalize_index v vn) (\<lambda>v'. Inr (s', v'))))))"

subsection \<open>Applying a normalised index (numpy)\<close>

text \<open>
  The positions a slice selects on an axis of length \<open>n\<close>, as
  \<^verbatim>\<open>range(*slice(start, stop, step).indices(n))\<close>: negative bounds count from the end,
  bounds are clipped to the axis, a step of zero raises \<^verbatim>\<open>ValueError\<close>.
\<close>

definition clip_bound :: "int \<Rightarrow> int \<Rightarrow> int \<Rightarrow> int \<Rightarrow> int" where
  "clip_bound n lower upper b = (if b < 0 then max (b + n) lower else min b upper)"

definition py_range :: "int \<Rightarrow> int \<Rightarrow> int \<Rightarrow> nat list" where
  "py_range start stop step =
     (if 0 < step
      then map (\<lambda>k. nat (start + int k * step)) [0..<nat ((stop - start + step - 1) div step)]
      else map (\<lambda>k. nat (start + int k * step)) [0..<nat ((start - stop - step - 1) div (- step))])"

definition slice_indices ::
  "nat \<Rightarrow> int option \<Rightarrow> int option \<Rightarrow> int option \<Rightarrow> error + nat list" where
  "slice_indices n start stop step =
     (let st = (case step of None \<Rightarrow> 1 | Some s \<Rightarrow> s);
          lower = (if st < 0 then - 1 else 0);
          upper = (if st < 0 then int n - 1 else int n);
          start' = (case start of
                      None \<Rightarrow> (if st < 0 then upper else lower)
                    | Some b \<Rightarrow> clip_bound (int n) lower upper b);
          stop' = (case stop of
                     None \<Rightarrow> (if st < 0 then lower else upper)
                   | Some b \<Rightarrow> clip_bound (int n) lower upper b)
      in if st = 0 then Inl (ValueError ''slice step cannot be zero'')
         else Inr (py_range start' stop' st))"

text \<open>
  An integer array as index: a negative entry counts from the end, an entry out of
  bounds raises \<^verbatim>\<open>IndexError\<close>.
\<close>

definition array_position :: "nat \<Rightarrow> int \<Rightarrow> error + nat" where
  "array_position n i =
     (if - int n \<le> i \<and> i < int n then Inr (nat (if i < 0 then i + int n else i))
      else Inl (IndexError ''index is out of bounds for axis''))"

fun positions :: "nat \<Rightarrow> norm \<Rightarrow> error + nat list" where
  "positions n (NSlice start stop step) = slice_indices n start stop step"
| "positions n (NArray is) = mapM (array_position n) is"

text \<open>
  \<^verbatim>\<open>X[smp, var]\<close> on a 2-D array. With a slice on at least one axis the result is the
  2-D array of the selected rows and columns. With an array on both axes numpy pairs
  the entries (the two arrays must have the same length, or one of them length 1) and
  the result is 1-D. Any other rank has no second axis to index.
\<close>

fun is_array :: "norm \<Rightarrow> bool" where
  "is_array (NArray is) = True"
| "is_array (NSlice a b c) = False"

definition pair_up :: "nat list \<Rightarrow> nat list \<Rightarrow> error + (nat \<times> nat) list" where
  "pair_up rs cs =
     (if length rs = length cs then Inr (zip rs cs)
      else if length rs = 1 then Inr (map (\<lambda>c. (hd rs, c)) cs)
      else if length cs = 1 then Inr (map (\<lambda>r. (r, hd cs)) rs)
      else Inl (IndexError ''shape mismatch: indexing arrays could not be broadcast together''))"

fun arr_getitem :: "arr \<Rightarrow> norm \<Rightarrow> norm \<Rightarrow> error + arr" where
  "arr_getitem (Arr2 r c rows) s v =
     ebind (positions r s) (\<lambda>rs.
     ebind (positions c v) (\<lambda>cs.
       if is_array s \<and> is_array v
       then ebind (pair_up rs cs) (\<lambda>ps. Inr (Arr1 (map (\<lambda>(i, j). rows ! i ! j) ps)))
       else Inr (Arr2 (length rs) (length cs) (map (\<lambda>i. map (\<lambda>j. rows ! i ! j) cs) rs))))"
| "arr_getitem a s v = Inl (IndexError ''too many indices for array'')"

text \<open>\<^verbatim>\<open>self.smp[smp]\<close>: the rows of a table at a normalised index.\<close>

fun col_take :: "nat list \<Rightarrow> column \<Rightarrow> column" where
  "col_take ps (IntCol xs) = IntCol (map (\<lambda>i. xs ! i) ps)"
| "col_take ps (StrCol xs) = StrCol (map (\<lambda>i. xs ! i) ps)"

definition rec_getitem :: "recarr \<Rightarrow> norm \<Rightarrow> error + recarr" where
  "rec_getitem r i =
     ebind (positions (len r) i) (\<lambda>ps. Inr (r\<lparr>cols := map (col_take ps) (cols r)\<rparr>))"

text \<open>
  \<^verbatim>\<open>X[smp, var] = val\<close> for a scalar \<open>val\<close>: every selected cell is overwritten.
\<close>

definition fill_cells :: "int list list \<Rightarrow> (nat \<times> nat) list \<Rightarrow> int \<Rightarrow> int list list" where
  "fill_cells rows ps x = fold (\<lambda>(i, j) m. m[i := (m ! i)[j := x]]) ps rows"

fun arr_setitem :: "arr \<Rightarrow> norm \<Rightarrow> norm \<Rightarrow> int \<Rightarrow> error + arr" where
  "arr_setitem (Arr2 r c rows) s v x =
     ebind (positions r s) (\<lambda>rs.
     ebind (positions c v) (\<lambda>cs.
       if is_array s \<and> is_array v
       then ebind (pair_up rs cs) (\<lambda>ps. Inr (Arr2 r c (fill_cells rows ps x)))
       else Inr (Arr2 r c (fill_cells rows (concat (map (\<lambda>i. map (\<lambda>j. (i, j)) cs) rs)) x))))"
| "arr_setitem a s v x = Inl (IndexError ''too many indices for array'')"

subsection \<open>\<^verbatim>\<open>AnnData\<close>: indexing, attribute assignment, transposition\<close>

text \<open>
  \<^verbatim>\<open>
  def __getitem__(self, index):
      # return element from add if index is string
      if isinstance(index, str):
          return self.add[index]
      # otherwise unpack index
      smp, var = self._normalize_indices(index)
      X = self.X[smp, var]
      smp_ann = self.smp[smp]
      var_ann = self.var[var]
      assert smp_ann.shape[0] == X.shape[0], (smp, smp_ann)
      assert var_ann.shape[0] == X.shape[1], (var, var_ann)
      adata = AnnData(X, smp_ann, var_ann,  **self.add)
      return adata
  \<close>
  \<^verbatim>\<open>self.X[smp, var]\<close> is a new array object of the class of \<^verbatim>\<open>self.X\<close>, allocated
  with the selected values (that numpy lets a view share the buffer of its base is
  not modelled). \<^verbatim>\<open>X.shape[1]\<close> of a 1-D array raises \<^verbatim>\<open>IndexError\<close>.
\<close>

datatype get_result = Value pyval | Sub AnnData

definition shape_at :: "arr \<Rightarrow> nat \<Rightarrow> error + nat" where
  "shape_at a k =
     (if k < length (shape a) then Inr (shape a ! k)
      else Inl (IndexError ''tuple index out of range''))"

definition getitem :: "heap \<Rightarrow> AnnData \<Rightarrow> packed_index \<Rightarrow> error + (get_result \<times> heap)" where
  "getitem h self index =
     (case index of
        Single (IStr k) \<Rightarrow>
          (case map_of (dicts h ! add self) k of
             None \<Rightarrow> Inl (KeyError k)
           | Some v \<Rightarrow> Inr (Value v, h))
      | _ \<Rightarrow>
          ebind (normalize_indices self index) (\<lambda>(s, v).
          ebind (arr_getitem (arr (arrays h ! X self)) s v) (\<lambda>x.
          ebind (rec_getitem (smp self) s) (\<lambda>smp_ann.
          ebind (rec_getitem (var self) v) (\<lambda>var_ann.
          ebind (shape_at x 0) (\<lambda>n0.
            if len smp_ann \<noteq> n0 then Inl AssertionError
            else
              ebind (shape_at x 1) (\<lambda>n1.
                if len var_ann \<noteq> n1 then Inl AssertionError
                else
                  (let (a, h1) = new_array \<lparr>cls = cls (arrays h ! X self), arr = x\<rparr> h
                   in ebind (call_AnnData h1 (PRef a) (SBound smp_ann) (SBound var_ann)
                               (dicts h ! add self))
                        (\<lambda>(adata, h2). Inr (Sub adata, h2))))))))))"

text \<open>
  \<^verbatim>\<open>
  def __setitem__(self, index, val):
      if isinstance(index, str):
          self.add[index] = val
          return
      smp, var = self._normalize_indices(index)
      self.X[smp, var] = val
  \<close>
  The matrix write is modelled for an integer \<open>val\<close>; any other value is answered
  with the \<^verbatim>\<open>ValueError\<close> of a value that does not fit the selection.
\<close>

definition setitem :: "heap \<Rightarrow> AnnData \<Rightarrow> packed_index \<Rightarrow> pyval \<Rightarrow> error + heap" where
  "setitem h self index val =
     (case index of
        Single (IStr k) \<Rightarrow>
          Inr (h\<lparr>dicts := (dicts h)[add self := AList.update k val (dicts h ! add self)]\<rparr>)
      | _ \<Rightarrow>
          ebind (normalize_indices self index) (\<lambda>(s, v).
            case val of
              PInt x \<Rightarrow>
                ebind (arr_setitem (arr (arrays h ! X self)) s v x) (\<lambda>x'.
                  Inr (h\<lparr>arrays := (arrays h)[X self := (arrays h ! X self)\<lparr>arr := x'\<rparr>]\<rparr>))
            | _ \<Rightarrow> Inl (ValueError ''could not broadcast input array'')))"

text \<open>
  \<^verbatim>\<open>
  def __delitem__(self, index):
      smp, var = self._normalize_indices(index)
      del self.X[smp, var]
      if var == slice(None):
          del self.smp.iloc[smp, :]
      if smp == slice(None):
          del self.var.iloc[var, :]
  \<close>
  Neither numpy arrays nor scipy sparse matrices support deleting items:
  \<^verbatim>\<open>del a[i, j]\<close> raises \<^verbatim>\<open>ValueError\<close> (cannot delete array elements) on an
  \<^verbatim>\<open>ndarray\<close>, masked or not, and \<^verbatim>\<open>TypeError\<close> on an \<^verbatim>\<open>spmatrix\<close>, which has no
  \<^verbatim>\<open>__delitem__\<close> (older Python versions raise \<^verbatim>\<open>AttributeError\<close> there).
  The statement \<^verbatim>\<open>del self.X[smp, var]\<close> therefore always raises,
  and the two \<^verbatim>\<open>if\<close> statements after it (which read an attribute \<^verbatim>\<open>iloc\<close> that
  record arrays do not have) are never reached.
\<close>

definition arr_delitem :: "pyobject \<Rightarrow> norm \<Rightarrow> norm \<Rightarrow> error + pyobject" where
  "arr_delitem ob s v =
     (if cls ob = spmatrix then Inl (TypeError ''object does not support item deletion'')
      else Inl (ValueError ''cannot delete array elements''))"

definition delitem :: "heap \<Rightarrow> AnnData \<Rightarrow> packed_index \<Rightarrow> error + (AnnData \<times> heap)" where
  "delitem h self index =
     ebind (normalize_indices self index) (\<lambda>(s, v).
     ebind (arr_delitem (arrays h ! X self) s v) (\<lambda>ob.
       Inr (self, h\<lparr>arrays := (arrays h)[X self := ob]\<rparr>)))"

text \<open>
  Assigning a column to a field of another dtype casts element by element. Casting a
  string to \<^verbatim>\<open>int64\<close> parses it and raises \<^verbatim>\<open>ValueError\<close> (invalid literal for
  int) when it is not an integer literal; \<open>int_literal\<close> reads an optional sign and
  decimal digits (the blanks and underscores that Python tolerates as well are not
  modelled). Casting an integer to a string writes its decimal digits.
\<close>

definition digit_of :: "char \<Rightarrow> int option" where
  "digit_of ch =
     (if ch \<in> set ''0123456789'' then Some (int (of_char ch) - 48) else None)"

fun digits_value :: "int \<Rightarrow> string \<Rightarrow> int option" where
  "digits_value acc [] = Some acc"
| "digits_value acc (ch # cs) =
     (case digit_of ch of None \<Rightarrow> None | Some d \<Rightarrow> digits_value (10 * acc + d) cs)"

fun int_literal :: "string \<Rightarrow> int option" where
  "int_literal [] = None"
| "int_literal (ch # cs) =
     (if ch = CHR ''-'' then (if cs = [] then None else map_option uminus (digits_value 0 cs))
      else if ch = CHR ''+'' then (if cs = [] then None else digits_value 0 cs)
      else digits_value 0 (ch # cs))"

definition parse_int :: "string \<Rightarrow> error + int" where
  "parse_int s =
     (case int_literal s of
        None \<Rightarrow> Inl (ValueError ''invalid literal for int() with base 10'')
      | Some i \<Rightarrow> Inr i)"

function digits_of :: "nat \<Rightarrow> string" where
  "digits_of n =
     (if n < 10 then [char_of (48 + n)] else digits_of (n div 10) @ [char_of (48 + n mod 10)])"
  by pat_completeness auto
termination
  by (relation "measure id") auto

definition str_of_int :: "int \<Rightarrow> string" where
  "str_of_int i = (if i < 0 then CHR ''-'' # digits_of (nat (- i)) else digits_of (nat i))"

text \<open>
  \<^verbatim>\<open>np.recarray.__setitem__(k, v)\<close> for a field \<open>k\<close> of the array: the value is cast
  to the dtype of the field and broadcast to the length of the array. This is what
  \<^verbatim>\<open>BoundRecArr.__setitem__\<close> does for one key that is a field already.
\<close>

fun cast_like :: "column \<Rightarrow> column \<Rightarrow> error + column" where
  "cast_like (IntCol old) (IntCol xs) = Inr (IntCol xs)"
| "cast_like (StrCol old) (StrCol xs) = Inr (StrCol xs)"
| "cast_like (IntCol old) (StrCol xs) = ebind (mapM parse_int xs) (\<lambda>is. Inr (IntCol is))"
| "cast_like (StrCol old) (IntCol xs) = Inr (StrCol (map str_of_int xs))"

fun set_nth_col :: "column list \<Rightarrow> string list \<Rightarrow> string \<Rightarrow> column \<Rightarrow> column list" where
  "set_nth_col (c # cs) (n # ns) k v = (if n = k then v # cs else c # set_nth_col cs ns k v)"
| "set_nth_col cs ns k v = cs"

definition set_field :: "recarr \<Rightarrow> string \<Rightarrow> column \<Rightarrow> error + recarr" where
  "set_field r k v =
     ebind (field r k) (\<lambda>old.
     ebind (cast_like old v) (\<lambda>v1.
     ebind (broadcast_to (len r) v1) (\<lambda>v2.
       Inr (r\<lparr>cols := set_nth_col (cols r) (names r) k v2\<rparr>))))"

text \<open>
  \<^verbatim>\<open>
  def __setattr__(self, key, value):
      names_col = dict(smp=SMP_NAMES, var=VAR_NAMES).get(key)
      if names_col and not isinstance(value, BoundRecArr):  # if smp/var is set, give it the right class
          names_orig, dim = (self.smp_names, 0) if names_col == SMP_NAMES else (self.var_names, 1)
          value_orig, value = value, BoundRecArr(value, names_col, self)
          if len(value) != self.X.shape[dim]:
              raise ValueError('New value for {!r} was converted to a reacarray of length {} instead of {}' ...)
          if (value[names_col] == np.arange(self.X.shape[dim])).all():  # TODO: add to constructor
              value[names_col] = names_orig
      object.__setattr__(self, key, value)
  \<close>
  for the keys \<^verbatim>\<open>smp\<close> and \<^verbatim>\<open>var\<close>. The comparison with \<^verbatim>\<open>np.arange\<close> is
  elementwise, on two arrays of the same length; a string column is equal to it
  nowhere.
\<close>

datatype table_key = Key_smp | Key_var

definition is_default_names :: "column \<Rightarrow> nat \<Rightarrow> bool" where
  "is_default_names c n = (c = arange n)"

definition setattr :: "heap \<Rightarrow> AnnData \<Rightarrow> table_key \<Rightarrow> source \<Rightarrow> error + AnnData" where
  "setattr h self key val =
     (let names_col = (case key of Key_smp \<Rightarrow> SMP_NAMES | Key_var \<Rightarrow> VAR_NAMES);
          store = (\<lambda>t. case key of Key_smp \<Rightarrow> self\<lparr>smp := t\<rparr> | Key_var \<Rightarrow> self\<lparr>var := t\<rparr>)
      in case val of
           SBound t \<Rightarrow> Inr (store t)
         | _ \<Rightarrow>
             ebind (case key of Key_smp \<Rightarrow> smp_names self | Key_var \<Rightarrow> var_names self) (\<lambda>names_orig.
             ebind (BoundRecArr val names_col None) (\<lambda>t.
             ebind (shape_at (arr (arrays h ! X self)) (case key of Key_smp \<Rightarrow> 0 | Key_var \<Rightarrow> 1)) (\<lambda>n.
               if len t \<noteq> n
               then Inl (ValueError ''New value was converted to a reacarray of the wrong length'')
               else
                 ebind (field t names_col) (\<lambda>ids.
                   if is_default_names ids n
                   then ebind (set_field t names_col names_orig) (\<lambda>t'. Inr (store t'))
                   else Inr (store t))))))"

text \<open>
  \<^verbatim>\<open>
  def transpose(self):
      return AnnData(self.X.T, self.var.flipped(), self.smp.flipped(), **self.add)
  \<close>
  \<^verbatim>\<open>self.X.T\<close> is a new array object of the class of \<^verbatim>\<open>self.X\<close>.
\<close>

definition transpose :: "heap \<Rightarrow> AnnData \<Rightarrow> error + (AnnData \<times> heap)" where
  "transpose h self =
     (let ob = arrays h ! X self;
          (a, h1) = new_array \<lparr>cls = cls ob, arr = arr_T (arr ob)\<rparr> h
      in ebind (flipped (var self)) (\<lambda>v.
         ebind (flipped (smp self)) (\<lambda>s.
           call_AnnData h1 (PRef a) (SBound v) (SBound s) (dicts h ! add self))))"

subsection \<open>Well-formed containers\<close>

text \<open>
  What \<^verbatim>\<open>__init__\<close> establishes, given well-formed arguments: the matrix is a 2-D
  array of one of the three classes, tagged as the constructor tags it; each table
  has one column per field name, distinct field names, columns of the length of its
  axis, and its name column among the fields. Every operation that returns a new
  container passes \<^verbatim>\<open>**self.add\<close> to the constructor, so the keys of \<^verbatim>\<open>add\<close> must
  be usable as keyword arguments there (\<open>kwargs_ok\<close>), as they are when \<^verbatim>\<open>add\<close>
  was built from keyword arguments.
\<close>

definition wf_rec :: "recarr \<Rightarrow> string \<Rightarrow> bool" where
  "wf_rec r ncol \<longleftrightarrow>
     cols r \<noteq> [] \<and> length (names r) = length (cols r) \<and> distinct (names r) \<and>
     list_all (\<lambda>c. col_len c = len r) (cols r) \<and> name_col r = ncol \<and> ncol \<in> set (names r)"

definition kwargs_ok :: "dict \<Rightarrow> bool" where
  "kwargs_ok kw \<longleftrightarrow>
     \<not> list_ex (\<lambda>k. k \<in> set (map fst kw)) [''self'', ''ddata_or_X'', ''smp'', ''var'']"

definition n_smp :: "heap \<Rightarrow> AnnData \<Rightarrow> nat" where
  "n_smp h self = (case arr (arrays h ! X self) of Arr2 r c rows \<Rightarrow> r | _ \<Rightarrow> 0)"

definition n_var :: "heap \<Rightarrow> AnnData \<Rightarrow> nat" where
  "n_var h self = (case arr (arrays h ! X self) of Arr2 r c rows \<Rightarrow> c | _ \<Rightarrow> 0)"

definition matrix :: "heap \<Rightarrow> AnnData \<Rightarrow> int list list" where
  "matrix h self = (case arr (arrays h ! X self) of Arr2 r c rows \<Rightarrow> rows | _ \<Rightarrow> [])"

definition valid :: "heap \<Rightarrow> AnnData \<Rightarrow> bool" where
  "valid h self \<longleftrightarrow>
     X self < length (arrays h) \<and> add self < length (dicts h) \<and>
     arr (arrays h ! X self) = Arr2 (n_smp h self) (n_var h self) (matrix h self) \<and>
     wf_arr (arr (arrays h ! X self)) \<and>
     check_storage_type (cls (arrays h ! X self)) = Inr (storage_type self) \<and>
     wf_rec (smp self) SMP_NAMES \<and> len (smp self) = n_smp h self \<and>
     wf_rec (var self) VAR_NAMES \<and> len (var self) = n_var h self \<and>
     kwargs_ok (dicts h ! add self)"

subsection \<open>Auxiliary notions for the statements\<close>




text \<open>
  The sub-container of the rows \<open>rs\<close> and the columns \<open>cs\<close>, and the heap after it
  was built: a new array object and a new dict object.
\<close>

definition sub_adata :: "heap \<Rightarrow> AnnData \<Rightarrow> nat list \<Rightarrow> nat list \<Rightarrow> AnnData" where
  "sub_adata h self rs cs =
     \<lparr>storage_type = storage_type self, X = length (arrays h),
      smp = (smp self)\<lparr>cols := map (col_take rs) (cols (smp self))\<rparr>,
      var = (var self)\<lparr>cols := map (col_take cs) (cols (var self))\<rparr>,
      add = length (dicts h)\<rparr>"

definition sub_heap :: "heap \<Rightarrow> AnnData \<Rightarrow> nat list \<Rightarrow> nat list \<Rightarrow> heap" where
  "sub_heap h self rs cs =
     \<lparr>arrays = arrays h @
        [\<lparr>cls = cls (arrays h ! X self),
          arr = Arr2 (length rs) (length cs) (map (\<lambda>i. map (\<lambda>j. matrix h self ! i ! j) cs) rs)\<rparr>],
      dicts = dicts h @ [dicts h ! add self]\<rparr>"

text \<open>
  The container of \<^verbatim>\<open>test_get_subset_names\<close>: the matrix \<open>[[1, 2, 3], [4, 5, 6]]\<close> with
  the row labels A, B and the column labels a, b, c, as the constructor returns it.
\<close>

definition heap0 :: heap where
  "heap0 = \<lparr>arrays = [\<lparr>cls = ndarray, arr = Arr2 2 3 [[1, 2, 3], [4, 5, 6]]\<rparr>], dicts = [[]]\<rparr>"

definition adata0 :: AnnData where
  "adata0 =
     \<lparr>storage_type = Array, X = 0,
      smp = \<lparr>names = [''smp_names''], cols = [StrCol [''A'', ''B'']], name_col = ''smp_names''\<rparr>,
      var = \<lparr>names = [''var_names''], cols = [StrCol [''a'', ''b'', ''c'']], name_col = ''var_names''\<rparr>,
      add = 0\<rparr>"

text \<open>
  A label is on an axis when the name column of the axis holds it. A selector uses an
  absent label when it is a string, has a string as a slice bound, or holds a string
  as an element, and that string is not on the axis. \<open>no_none\<close>: no element of a
  sequence is \<^verbatim>\<open>None\<close>.
\<close>

fun has_label :: "column \<Rightarrow> string \<Rightarrow> bool" where
  "has_label (StrCol xs) s = (s \<in> set xs)"
| "has_label (IntCol xs) s = False"

fun absent_elem :: "column \<Rightarrow> elem \<Rightarrow> bool" where
  "absent_elem nms (EStr s) = (\<not> has_label nms s)"
| "absent_elem nms e = False"

fun uses_absent_label :: "column \<Rightarrow> index \<Rightarrow> bool" where
  "uses_absent_label nms (IStr s) = (\<not> has_label nms s)"
| "uses_absent_label nms (ISlice b1 b2 step) = (absent_elem nms b1 \<or> absent_elem nms b2)"
| "uses_absent_label nms (ISeq es) = list_ex (absent_elem nms) es"
| "uses_absent_label nms i = False"

fun no_none :: "index \<Rightarrow> bool" where
  "no_none (ISeq es) = (ENone \<notin> set es)"
| "no_none i = True"

text \<open>
  \<open>last_value k d v\<close>: the value of the key \<open>k\<close> after the items of \<open>d\<close> were
  written, in order, into a dict that held \<open>v\<close> under \<open>k\<close>.
\<close>

definition last_value :: "'k \<Rightarrow> ('k \<times> 'v) list \<Rightarrow> 'v \<Rightarrow> 'v" where
  "last_value k0 d v0 = fold (\<lambda>(k, v) acc. if k = k0 then v else acc) d v0"

text \<open>
  A combined mapping with the explicit row names A, B and a nested row annotation
  mapping that has an identifier entry C, D; and the container built from it.
\<close>

definition ddata0 :: dict where
  "ddata0 =
     [(''X'', PRef 0),
      (''row_names'', PCol (StrCol [''A'', ''B''])),
      (''smp'', PDict [(''smp_names'', StrCol [''C'', ''D''])])]"

definition adata1 :: AnnData where
  "adata1 =
     \<lparr>storage_type = Array, X = 0,
      smp = \<lparr>names = [''smp_names''], cols = [StrCol [''C'', ''D'']], name_col = ''smp_names''\<rparr>,
      var = \<lparr>names = [''var_names''], cols = [IntCol [0, 1, 2]], name_col = ''var_names''\<rparr>,
      add = 1\<rparr>"

text \<open>
  The transposed container and the heap after the transposition: the name column of
  a flipped table is renamed (\<open>flip_names\<close>), its columns stay.
\<close>

definition flip_names :: "string \<Rightarrow> string \<Rightarrow> string list \<Rightarrow> string list" where
  "flip_names old new ns = map (\<lambda>n. if n = old then new else n) ns"

definition transposed :: "heap \<Rightarrow> AnnData \<Rightarrow> AnnData" where
  "transposed h self =
     \<lparr>storage_type = storage_type self, X = length (arrays h),
      smp = (var self)\<lparr>names := flip_names VAR_NAMES SMP_NAMES (names (var self)), name_col := SMP_NAMES\<rparr>,
      var = (smp self)\<lparr>names := flip_names SMP_NAMES VAR_NAMES (names (smp self)), name_col := VAR_NAMES\<rparr>,
      add = length (dicts h)\<rparr>"

definition transposed_heap :: "heap \<Rightarrow> AnnData \<Rightarrow> heap" where
  "transposed_heap h self =
     \<lparr>arrays = arrays h @ [\<lparr>cls = cls (arrays h ! X self), arr = arr_T (arr (arrays h ! X self))\<rparr>],
      dicts = dicts h @ [dicts h ! add self]\<rparr>"

text \<open>
  The container of \<^verbatim>\<open>test_get_subset_names\<close> with a second row annotation column,
  named \<^verbatim>\<open>var_names\<close>.
\<close>

definition adata2 :: AnnData where
  "adata2 =
     adata0\<lparr>smp := \<lparr>names = [''smp_names'', ''var_names''],
                      cols = [StrCol [''A'', ''B''], StrCol [''x'', ''y'']],
                      name_col = ''smp_names''\<rparr>\<rparr>"

text \<open>
  An annotation source the constructor can make a table of: the keys of a mapping are
  distinct, and a record array has one column per field and its name column among
  its distinct fields.
\<close>

fun source_ok :: "source \<Rightarrow> string \<Rightarrow> bool" where
  "source_ok SNone nc = True"
| "source_ok (SMap m) nc = distinct (map fst m)"
| "source_ok (SRec r) nc =
     (length (names r) = length (cols r) \<and> distinct (names r) \<and> nc \<in> set (names r))"
| "source_ok (SBound r) nc =
     (length (names r) = length (cols r) \<and> distinct (names r) \<and> nc \<in> set (names r))"
| "source_ok SOther nc = True"

section \<open>Properties\<close>

subsection \<open>Basic facts\<close>

lemma ebind_Inr [simp]: "ebind (Inr x) f = f x"
  by (simp add: ebind_def)

lemma ebind_Inl [simp]: "ebind (Inl e) f = Inl e"
  by (simp add: ebind_def)

lemma ebind_eq_Inr:
  "ebind m f = Inr y \<longleftrightarrow> (\<exists>x. m = Inr x \<and> f x = Inr y)"
  by (cases m) simp_all

lemma broadcast_to_same: "col_len c = n \<Longrightarrow> broadcast_to n c = Inr c"
  by (cases c) simp_all

lemma mapM_broadcast_same:
  "list_all (\<lambda>c. col_len c = n) cs \<Longrightarrow> mapM (broadcast_to n) cs = Inr cs"
  by (induction cs) (simp_all add: broadcast_to_same)

lemma len_Cons: "cols r = c # cs \<Longrightarrow> len r = col_len c"
  by (simp add: len_def)

lemma BoundRecArr_bound:
  assumes "cols r \<noteq> []" and "list_all (\<lambda>c. col_len c = len r) (cols r)"
  shows "BoundRecArr (SBound r) nc k = Inr (r\<lparr>name_col := nc\<rparr>)"
proof -
  from assms(1) obtain c cs where c: "cols r = c # cs" by (cases "cols r") auto
  then have "len r = col_len c" by (rule len_Cons)
  with assms(2) c show ?thesis
    by (simp add: BoundRecArr_def columns_of_def mapM_broadcast_same[where n="col_len c"] broadcast_to_same)
qed

lemma col_len_take [simp]: "col_len (col_take ps c) = length ps"
  by (cases c) simp_all

lemma len_take:
  "cols r \<noteq> [] \<Longrightarrow> len (r\<lparr>cols := map (col_take ps) (cols r)\<rparr>) = length ps"
  by (cases "cols r") (simp_all add: len_def)

lemma list_all_take: "list_all (\<lambda>c. col_len c = length ps) (map (col_take ps) cs)"
  by (induction cs) simp_all

lemma wf_rec_take:
  "wf_rec r nc \<Longrightarrow> wf_rec (r\<lparr>cols := map (col_take ps) (cols r)\<rparr>) nc"
  by (simp add: wf_rec_def len_take list_all_take)


lemma len_name_col [simp]: "len (r\<lparr>name_col := nc\<rparr>) = len r"
  by (simp add: len_def)

lemma init_body_bound:
  assumes "a < length (arrays h)" and "arr (arrays h ! a) = Arr2 r c rows"
    and "check_storage_type (cls (arrays h ! a)) = Inr st"
    and "cols s \<noteq> []" and "list_all (\<lambda>x. col_len x = len s) (cols s)" and "len s = r"
    and "cols v \<noteq> []" and "list_all (\<lambda>x. col_len x = len v) (cols v)" and "len v = c"
  shows "init_body h (PRef a) (SBound s) (SBound v) kw =
     Inr (\<lparr>storage_type = st, X = a, smp = s\<lparr>name_col := SMP_NAMES\<rparr>,
            var = v\<lparr>name_col := VAR_NAMES\<rparr>, add = length (dicts h)\<rparr>,
          h\<lparr>dicts := dicts h @ [kw]\<rparr>)"
  using assms
  by (simp add: init_body_def class_of_def BoundRecArr_bound check_dimensions_def new_dict_def)

lemma getitem_not_str:
  assumes "\<forall>k. index \<noteq> Single (IStr k)"
  shows "getitem h self index =
          ebind (normalize_indices self index) (\<lambda>(s, v).
          ebind (arr_getitem (arr (arrays h ! X self)) s v) (\<lambda>x.
          ebind (rec_getitem (smp self) s) (\<lambda>smp_ann.
          ebind (rec_getitem (var self) v) (\<lambda>var_ann.
          ebind (shape_at x 0) (\<lambda>n0.
            if len smp_ann \<noteq> n0 then Inl AssertionError
            else
              ebind (shape_at x 1) (\<lambda>n1.
                if len var_ann \<noteq> n1 then Inl AssertionError
                else
                  (let (a, h1) = new_array \<lparr>cls = cls (arrays h ! X self), arr = x\<rparr> h
                   in ebind (call_AnnData h1 (PRef a) (SBound smp_ann) (SBound var_ann)
                               (dicts h ! add self))
                        (\<lambda>(adata, h2). Inr (Sub adata, h2)))))))))"
  using assms unfolding getitem_def
  by (auto split: packed_index.splits index.splits)


subsection \<open>Storage type\<close>

lemma check_storage_type_cases:
  "check_storage_type ndarray = Inr Array"
  "check_storage_type MaskedArray = Inr Array"
  "check_storage_type spmatrix = Inr Sparse"
  "check_storage_type OtherClass =
     Inl (ValueError ''X needs to be of one of the following types [ndarray, MaskedArray, spmatrix]'')"
  by (simp_all add: check_storage_type_def members_def type_error_message_def classes_def)

lemma check_storage_type_not_Masked: "check_storage_type c \<noteq> Inr Masked"
  by (cases c) (simp_all add: check_storage_type_cases)

text \<open>
  C2. The claim: the container records the tag of the representation it was given,
  Dense for a dense array, Masked for a masked array, Sparse for a sparse matrix, and
  any other source fails with an error that names the three representations.
  The code tags a masked array as \<open>Array\<close> (dense): \<^verbatim>\<open>MaskedArray\<close> is a subclass of
  \<^verbatim>\<open>ndarray\<close> and \<open>Array\<close> is tried first, so \<open>Masked\<close> is never assigned. The
  theorem runs the classification on a masked array and the constructor on the
  masked 2 x 2 matrix of \<^verbatim>\<open>test_creation\<close>.
\<close>

theorem masked_array_tagged_Array:
  "check_storage_type MaskedArray = Inr Array \<and>
   map_sum id (\<lambda>(a, h). storage_type a)
     (init \<lparr>arrays = [\<lparr>cls = MaskedArray, arr = Arr2 2 2 [[1, 2], [3, 4]]\<rparr>], dicts = []\<rparr>
        (Xarg (PRef 0)) SNone SNone []) = Inr Array"
  by code_simp

subsection \<open>Get on a pair of selectors\<close>







lemma valid0: "valid heap0 adata0"
  by (simp add: valid_def heap0_def adata0_def n_smp_def n_var_def matrix_def wf_rec_def len_def
      kwargs_ok_def check_storage_type_cases SMP_NAMES_def VAR_NAMES_def)








lemma matrix_sub [simp]:
  "matrix (sub_heap h self rs cs) (sub_adata h self rs cs) =
     map (\<lambda>i. map (\<lambda>j. matrix h self ! i ! j) cs) rs"
  by (simp add: matrix_def sub_heap_def sub_adata_def)

subsection \<open>Boolean masks\<close>




subsection \<open>Integer selectors\<close>



subsection \<open>Unknown labels\<close>

lemma where_eq_absent: "\<not> has_label nms s \<Longrightarrow> where_eq nms s = []"
proof (cases nms)
  case (StrCol xs)
  assume "\<not> has_label nms s"
  then show ?thesis
    by (auto simp: StrCol filter_empty_conv)
qed simp

lemma name_idx_absent: "absent_elem nms e \<Longrightarrow> \<exists>m. name_idx nms e = Inl (IndexError m)"
  by (cases e) (simp_all add: where_eq_absent)

lemma name_idx_error: "name_idx nms e = Inl err \<Longrightarrow> \<exists>m. err = IndexError m"
  by (cases e) (auto split: list.splits)

lemma mapM_absent:
  "list_ex (absent_elem nms) es \<Longrightarrow> \<exists>e. mapM (\<lambda>e. ebind (name_idx nms e) as_int64) es = Inl e"
proof (induction es)
  case Nil
  then show ?case by simp
next
  case (Cons x xs)
  show ?case
  proof (cases "ebind (name_idx nms x) as_int64")
    case (Inl e)
    then show ?thesis by simp
  next
    case (Inr y)
    then have "\<not> absent_elem nms x"
      using name_idx_absent[of nms x] by auto
    with Cons.prems have "list_ex (absent_elem nms) xs" by simp
    from Cons.IH[OF this] obtain e where "mapM (\<lambda>e. ebind (name_idx nms e) as_int64) xs = Inl e" ..
    with Inr show ?thesis by simp
  qed
qed

lemma mapM_error_kind:
  "ENone \<notin> set es \<Longrightarrow> mapM (\<lambda>e. ebind (name_idx nms e) as_int64) es = Inl err \<Longrightarrow>
     \<exists>m. err = IndexError m"
proof (induction es)
  case Nil
  then show ?case by simp
next
  case (Cons x xs)
  then show ?case
    by (cases x) (auto split: sum.splits list.splits)
qed

lemma normalize_index_absent:
  "uses_absent_label nms i \<Longrightarrow> \<exists>e. normalize_index i nms = Inl e"
proof (cases i)
  case (ISlice b1 b2 st)
  assume "uses_absent_label nms i"
  then show ?thesis
    using name_idx_absent[of nms b1] name_idx_absent[of nms b2]
    by (cases "name_idx nms b1") (auto simp: ISlice)
next
  case (IStr s)
  assume "uses_absent_label nms i"
  then show ?thesis by (simp add: IStr where_eq_absent)
next
  case (ISeq es)
  assume "uses_absent_label nms i"
  then show ?thesis using mapM_absent[of nms es] by (auto simp: ISeq)
qed simp_all

lemma normalize_index_error_kind:
  "no_none i \<Longrightarrow> normalize_index i nms = Inl err \<Longrightarrow> \<exists>m. err = IndexError m"
proof (cases i)
  case (ISlice b1 b2 st)
  assume "normalize_index i nms = Inl err"
  then show ?thesis
    using name_idx_error[of nms b1] name_idx_error[of nms b2]
    by (cases "name_idx nms b1"; cases "name_idx nms b2") (auto simp: ISlice)
next
  case (IStr s)
  assume "normalize_index i nms = Inl err"
  then show ?thesis by (auto simp: IStr split: list.splits)
next
  case (ISeq es)
  assume "no_none i" "normalize_index i nms = Inl err"
  then show ?thesis
    using mapM_error_kind[of es nms err]
    by (cases "mapM (\<lambda>e. ebind (name_idx nms e) as_int64) es") (auto simp: ISeq)
qed auto

lemma normalize_indices_absent:
  assumes "unpack_index p = Inr (r, c)" and "smp_names self = Inr sn" and "var_names self = Inr vn"
    and "uses_absent_label sn r \<or> uses_absent_label vn c"
  shows "\<exists>e. normalize_indices self p = Inl e \<and> (no_none r \<and> no_none c \<longrightarrow> (\<exists>m. e = IndexError m))"
proof (cases "normalize_index r sn")
  case (Inl e)
  then show ?thesis
    using assms(1-3) normalize_index_error_kind[of r sn e]
    by (auto simp: normalize_indices_def)
next
  case (Inr s)
  then have "\<not> uses_absent_label sn r"
    using normalize_index_absent[of sn r] by auto
  with assms(4) have "uses_absent_label vn c" by simp
  then obtain e where e: "normalize_index c vn = Inl e"
    using normalize_index_absent by blast
  then show ?thesis
    using assms(1-3) Inr normalize_index_error_kind[of c vn e]
    by (auto simp: normalize_indices_def)
qed

lemma setitem_not_str:
  assumes "\<forall>k. index \<noteq> Single (IStr k)"
  shows "setitem h self index val =
          ebind (normalize_indices self index) (\<lambda>(s, v).
            case val of
              PInt x \<Rightarrow>
                ebind (arr_setitem (arr (arrays h ! X self)) s v x) (\<lambda>x'.
                  Inr (h\<lparr>arrays := (arrays h)[X self := (arrays h ! X self)\<lparr>arr := x'\<rparr>]\<rparr>))
            | _ \<Rightarrow> Inl (ValueError ''could not broadcast input array''))"
  using assms unfolding setitem_def
  by (auto split: packed_index.splits index.splits)

text \<open>
  C8. Every indexing operation (Get, Set, Delete) that uses a string label absent from
  the name column of its axis, directly, as a slice bound or as an element of a list
  selector, raises: no result is returned. \<open>r\<close> and \<open>c\<close> are the row and the column
  selector of the packed index. For Get and Set the packed index must not be a bare
  string, which is a key of \<^verbatim>\<open>add\<close> and no label. The exception is the
  \<^verbatim>\<open>IndexError\<close> of the lookup (of \<^verbatim>\<open>np.where(names == i)[0][0]\<close>), or the
  \<^verbatim>\<open>IndexError\<close> for a selector of unknown type on the axis normalised before; only
  a \<^verbatim>\<open>None\<close> inside a list selector can raise \<^verbatim>\<open>TypeError\<close> first.
\<close>

theorem absent_label_raises:
  assumes "unpack_index p = Inr (r, c)" and "smp_names self = Inr sn" and "var_names self = Inr vn"
    and "uses_absent_label sn r \<or> uses_absent_label vn c"
  shows "(\<exists>e. delitem h self p = Inl e \<and> (no_none r \<and> no_none c \<longrightarrow> (\<exists>m. e = IndexError m))) \<and>
         ((\<forall>k. p \<noteq> Single (IStr k)) \<longrightarrow>
            (\<exists>e. getitem h self p = Inl e \<and> (no_none r \<and> no_none c \<longrightarrow> (\<exists>m. e = IndexError m))) \<and>
            (\<exists>e. setitem h self p val = Inl e \<and> (no_none r \<and> no_none c \<longrightarrow> (\<exists>m. e = IndexError m))))"
proof -
  from normalize_indices_absent[OF assms] obtain e where
    e: "normalize_indices self p = Inl e" "no_none r \<and> no_none c \<longrightarrow> (\<exists>m. e = IndexError m)"
    by blast
  have d: "delitem h self p = Inl e" by (simp add: delitem_def e(1))
  have g: "(\<forall>k. p \<noteq> Single (IStr k)) \<Longrightarrow> getitem h self p = Inl e"
    by (simp add: getitem_not_str e(1))
  have s: "(\<forall>k. p \<noteq> Single (IStr k)) \<Longrightarrow> setitem h self p val = Inl e"
    by (simp add: setitem_not_str e(1))
  show ?thesis using d g s e(2) by blast
qed


theorem absent_label_raises_witness:
  "unpack_index (Tuple [IStr ''X'', all_slice]) = Inr (IStr ''X'', all_slice) \<and>
   smp_names adata0 = Inr (StrCol [''A'', ''B'']) \<and>
   var_names adata0 = Inr (StrCol [''a'', ''b'', ''c'']) \<and>
   uses_absent_label (StrCol [''A'', ''B'']) (IStr ''X'') \<and>
   (\<exists>m. getitem heap0 adata0 (Tuple [IStr ''X'', all_slice]) = Inl (IndexError m)) \<and>
   (\<exists>m. setitem heap0 adata0 (Tuple [IStr ''X'', all_slice]) (PInt 0) = Inl (IndexError m)) \<and>
   (\<exists>m. delitem heap0 adata0 (Tuple [IStr ''X'', all_slice]) = Inl (IndexError m))"
proof -
  have u: "unpack_index (Tuple [IStr ''X'', all_slice]) = Inr (IStr ''X'', all_slice)"
    by (simp add: all_slice_def)
  have sn: "smp_names adata0 = Inr (StrCol [''A'', ''B''])" by code_simp
  have vn: "var_names adata0 = Inr (StrCol [''a'', ''b'', ''c''])" by code_simp
  have a: "uses_absent_label (StrCol [''A'', ''B'']) (IStr ''X'')" by simp
  have nn: "no_none (IStr ''X'') \<and> no_none all_slice" by (simp add: all_slice_def)
  have a': "uses_absent_label (StrCol [''A'', ''B'']) (IStr ''X'') \<or>
            uses_absent_label (StrCol [''a'', ''b'', ''c'']) all_slice"
    using a by blast
  have ns: "\<forall>k. Tuple [IStr ''X'', all_slice] \<noteq> Single (IStr k)" by simp
  show ?thesis
    using absent_label_raises[OF u sn vn a', of heap0 "PInt 0"] u sn vn a nn ns
    by blast
qed

subsection \<open>Construction from a 1-D array\<close>

text \<open>
  C9. Constructing a container from a 1-D dense array of length N changes the shape of
  that array object to N x 1 in place (the object at the caller's address \<open>a\<close> is
  updated in the heap) and stores the same object: \<open>X\<close> of the container is \<open>a\<close>,
  nothing is copied, and no other array object changes. The first conjunct is the
  construction without annotations, the second holds for every annotation source
  with which the construction succeeds.
\<close>

theorem one_dimensional_input_reshaped_in_place:
  assumes "a < length (arrays h)" and "arrays h ! a = \<lparr>cls = ndarray, arr = Arr1 xs\<rparr>"
  shows "init h (Xarg (PRef a)) SNone SNone kw =
           Inr (\<lparr>storage_type = Array, X = a,
                  smp = \<lparr>names = [SMP_NAMES], cols = [arange (length xs)], name_col = SMP_NAMES\<rparr>,
                  var = \<lparr>names = [VAR_NAMES], cols = [arange 1], name_col = VAR_NAMES\<rparr>,
                  add = length (dicts h)\<rparr>,
                h\<lparr>arrays := (arrays h)[a := \<lparr>cls = ndarray,
                                             arr = Arr2 (length xs) 1 (map (\<lambda>x. [x]) xs)\<rparr>],
                  dicts := dicts h @ [kw]\<rparr>) \<and>
         (\<forall>s v ad h'. init h (Xarg (PRef a)) s v kw = Inr (ad, h') \<longrightarrow>
            X ad = a \<and>
            arrays h' = (arrays h)[a := \<lparr>cls = ndarray,
                                          arr = Arr2 (length xs) 1 (map (\<lambda>x. [x]) xs)\<rparr>])"
proof -
  have b: "init h (Xarg (PRef a)) s v kw = init_body h (PRef a) s v kw" for s v
    by (simp add: init_def)
  have c: "class_of h (PRef a) = ndarray"
    using assms by (simp add: class_of_def)
  have 1: "init_body h (PRef a) SNone SNone kw =
           Inr (\<lparr>storage_type = Array, X = a,
                  smp = \<lparr>names = [SMP_NAMES], cols = [arange (length xs)], name_col = SMP_NAMES\<rparr>,
                  var = \<lparr>names = [VAR_NAMES], cols = [arange 1], name_col = VAR_NAMES\<rparr>,
                  add = length (dicts h)\<rparr>,
                h\<lparr>arrays := (arrays h)[a := \<lparr>cls = ndarray,
                                             arr = Arr2 (length xs) 1 (map (\<lambda>x. [x]) xs)\<rparr>],
                  dicts := dicts h @ [kw]\<rparr>)"
    using assms
    by (simp add: init_body_def c check_storage_type_cases BoundRecArr_def columns_of_def
        arange_opt_def arange_def check_dimensions_def len_def new_dict_def)
  have 2: "init_body h (PRef a) s v kw = Inr (ad, h') \<Longrightarrow>
            X ad = a \<and>
            arrays h' = (arrays h)[a := \<lparr>cls = ndarray,
                                          arr = Arr2 (length xs) 1 (map (\<lambda>x. [x]) xs)\<rparr>]"
    for s v ad h'
    using assms
    by (auto simp: init_body_def c check_storage_type_cases ebind_eq_Inr new_dict_def Let_def)
  show ?thesis
    using 1 2 by (simp add: b)
qed

theorem one_dimensional_input_reshaped_in_place_witness:
  "0 < length (arrays \<lparr>arrays = [\<lparr>cls = ndarray, arr = Arr1 [1, 2]\<rparr>], dicts = []\<rparr>) \<and>
   arrays \<lparr>arrays = [\<lparr>cls = ndarray, arr = Arr1 [1, 2]\<rparr>], dicts = []\<rparr> ! 0 =
     \<lparr>cls = ndarray, arr = Arr1 [1, 2]\<rparr> \<and>
   init \<lparr>arrays = [\<lparr>cls = ndarray, arr = Arr1 [1, 2]\<rparr>], dicts = []\<rparr> (Xarg (PRef 0)) SNone SNone [] =
     Inr (\<lparr>storage_type = Array, X = 0,
            smp = \<lparr>names = [''smp_names''], cols = [IntCol [0, 1]], name_col = ''smp_names''\<rparr>,
            var = \<lparr>names = [''var_names''], cols = [IntCol [0]], name_col = ''var_names''\<rparr>,
            add = 0\<rparr>,
          \<lparr>arrays = [\<lparr>cls = ndarray, arr = Arr2 2 1 [[1], [2]]\<rparr>], dicts = [[]]\<rparr>)"
proof -
  let ?h = "\<lparr>arrays = [\<lparr>cls = ndarray, arr = Arr1 [1, 2]\<rparr>], dicts = []\<rparr>"
  have a: "0 < length (arrays ?h)" by simp
  have b: "arrays ?h ! 0 = \<lparr>cls = ndarray, arr = Arr1 [1, 2]\<rparr>" by simp
  have c: "arange (Suc (Suc 0)) = IntCol [0, 1]" "arange (Suc 0) = IntCol [0]"
    by (simp_all add: arange_def)
  show ?thesis
    using one_dimensional_input_reshaped_in_place[OF a b, of "[]"] a b
    by (simp add: c SMP_NAMES_def VAR_NAMES_def)
qed

subsection \<open>Delete\<close>

lemma delitem_raises: "\<exists>e. delitem h self index = Inl e"
proof (cases "normalize_indices self index")
  case (Inl e)
  then show ?thesis by (simp add: delitem_def)
next
  case (Inr sv)
  then show ?thesis
    by (cases sv) (simp add: delitem_def arr_delitem_def)
qed

text \<open>
  C5. The claim: a Delete whose column selector is the all-columns slice removes the
  selected rows from the matrix and from the row table. In the code every Delete
  raises: after the normalisation of the index, \<^verbatim>\<open>del self.X[smp, var]\<close> is not
  supported by any of the three matrix classes. The theorem states this for every
  container and index, and runs \<^verbatim>\<open>del adata[0, :]\<close> on the container of
  \<^verbatim>\<open>test_get_subset_names\<close>.
\<close>

theorem delitem_always_raises:
  "(\<exists>e. delitem h self index = Inl e) \<and>
   delitem heap0 adata0 (Tuple [IInt 0, all_slice]) = Inl (ValueError ''cannot delete array elements'')"
proof -
  have "delitem heap0 adata0 (Tuple [IInt 0, all_slice]) = Inl (ValueError ''cannot delete array elements'')"
    by code_simp
  then show ?thesis using delitem_raises by blast
qed

subsection \<open>Assigning a table\<close>

text \<open>
  C6. The claim: assigning a mapping without identifier list to the row table of a
  container whose rows carry labels keeps the labels. With the string labels A, B of
  \<^verbatim>\<open>test_get_subset_names\<close> the assignment raises: the coerced name column is the
  \<^verbatim>\<open>int64\<close> column \<^verbatim>\<open>arange(2)\<close>, and writing the strings back into it fails in
  the cast. With integer labels (\<^verbatim>\<open>test_set_add\<close>) the labels are kept, see
  \<open>setattr_keeps_integer_labels\<close>.
\<close>

theorem setattr_string_labels_raises:
  "smp_names adata0 = Inr (StrCol [''A'', ''B'']) \<and>
   setattr heap0 adata0 Key_smp (SMap [(''a'', PCol (IntCol [1, 2]))]) =
     Inl (ValueError ''invalid literal for int() with base 10'')"
  by code_simp

lemma setattr_keeps_integer_labels:
  "setattr heap0 (adata0\<lparr>smp := \<lparr>names = [''smp_names''], cols = [IntCol [1, 2]], name_col = ''smp_names''\<rparr>\<rparr>)
     Key_smp (SMap [(''a'', PCol (IntCol [1, 2]))]) =
   Inr (adata0\<lparr>smp := \<lparr>names = [''a'', ''smp_names''], cols = [IntCol [1, 2], IntCol [1, 2]],
                          name_col = ''smp_names''\<rparr>\<rparr>)"
  by code_simp

subsection \<open>The extra mapping of a sub-container\<close>

lemma init_body_dicts:
  assumes "init_body h x s v kw = Inr (a, h')"
  shows "add a = length (dicts h) \<and> dicts h' = dicts h @ [kw]"
  using assms
  by (auto simp: init_body_def ebind_eq_Inr new_dict_def Let_def
      split: sum.splits pyval.splits list.splits if_splits)

lemma call_AnnData_dicts:
  assumes "call_AnnData h (PRef a) s v kw = Inr (ad, h')"
  shows "add ad = length (dicts h) \<and> dicts h' = dicts h @ [kw]"
  using assms init_body_dicts[of h "PRef a" s v kw ad h']
  by (simp add: call_AnnData_def init_def split: if_splits)

lemma getitem_Sub_not_str:
  "getitem h self index = Inr (Sub sub, h1) \<Longrightarrow> \<forall>k. index \<noteq> Single (IStr k)"
  by (auto simp: getitem_def split: option.splits)

lemma getitem_Sub_dicts:
  assumes "getitem h self index = Inr (Sub sub, h1)"
  shows "add sub = length (dicts h) \<and> dicts h1 = dicts h @ [dicts h ! add self]"
proof -
  have ns: "\<forall>k. index \<noteq> Single (IStr k)"
    using assms by (rule getitem_Sub_not_str)
  from assms[unfolded getitem_not_str[OF ns]]
  obtain x s v where
    c: "call_AnnData (h\<lparr>arrays := arrays h @ [\<lparr>cls = cls (arrays h ! X self), arr = x\<rparr>]\<rparr>)
          (PRef (length (arrays h))) (SBound s) (SBound v) (dicts h ! add self) = Inr (sub, h1)"
    by (auto simp: ebind_eq_Inr new_array_def split: if_splits prod.splits)
  from call_AnnData_dicts[OF c] show ?thesis by simp
qed

lemma setitem_str:
  "setitem h self (Single (IStr k)) val =
     Inr (h\<lparr>dicts := (dicts h)[add self := AList.update k val (dicts h ! add self)]\<rparr>)"
  by (simp add: setitem_def)

text \<open>
  C3. The claim: the extra mapping of the sub-container that Get returns is the
  parent's own mapping, shared by reference, so that a later write of an extra key
  through one of them is visible through the other.
  As amended: the sub-container gets a new mapping that holds the parent's entries
  as they are at the time of Get (\<^verbatim>\<open>**self.add\<close> unpacks the parent's dict into
  keyword arguments, which the constructor receives as a dict of its own). A later
  write of an extra key \<open>k\<close> through the parent or through the sub-container changes
  the mapping of that one only.
\<close>

theorem get_copies_extra_mapping:
  assumes "add self < length (dicts h)" and "getitem h self index = Inr (Sub sub, h1)"
  shows "add sub \<noteq> add self \<and>
         dicts h1 ! add sub = dicts h ! add self \<and>
         dicts h1 ! add self = dicts h ! add self \<and>
         (\<exists>h2. setitem h1 self (Single (IStr k)) val = Inr h2 \<and>
               map_of (dicts h2 ! add self) k = Some val \<and>
               dicts h2 ! add sub = dicts h ! add self) \<and>
         (\<exists>h2. setitem h1 sub (Single (IStr k)) val = Inr h2 \<and>
               map_of (dicts h2 ! add sub) k = Some val \<and>
               dicts h2 ! add self = dicts h ! add self)"
proof -
  from getitem_Sub_dicts[OF assms(2)]
  have a: "add sub = length (dicts h)" and d: "dicts h1 = dicts h @ [dicts h ! add self]"
    by simp_all
  show ?thesis
    using assms(1) by (simp add: a d setitem_str nth_append update_conv')
qed

theorem get_copies_extra_mapping_witness:
  "add adata0 < length (dicts heap0) \<and>
   getitem heap0 adata0 (Single (IInt 0)) =
     Inr (Sub (sub_adata heap0 adata0 [0] [0, 1, 2]), sub_heap heap0 adata0 [0] [0, 1, 2]) \<and>
   add (sub_adata heap0 adata0 [0] [0, 1, 2]) \<noteq> add adata0 \<and>
   dicts (sub_heap heap0 adata0 [0] [0, 1, 2]) ! add (sub_adata heap0 adata0 [0] [0, 1, 2]) =
     dicts heap0 ! add adata0"
proof -
  have a: "add adata0 < length (dicts heap0)" by code_simp
  have g: "getitem heap0 adata0 (Single (IInt 0)) =
     Inr (Sub (sub_adata heap0 adata0 [0] [0, 1, 2]), sub_heap heap0 adata0 [0] [0, 1, 2])"
    by code_simp
  show ?thesis
    using get_copies_extra_mapping[OF a g] a g by blast
qed

text \<open>
  C3, the claim as stated fails: after \<^verbatim>\<open>sub = adata[0]\<close> and \<^verbatim>\<open>adata['k'] = 1\<close>
  the parent has the key, and \<^verbatim>\<open>sub['k']\<close> raises \<^verbatim>\<open>KeyError\<close>.
\<close>

theorem shared_extra_counterexample:
  "getitem heap0 adata0 (Single (IInt 0)) =
     Inr (Sub (sub_adata heap0 adata0 [0] [0, 1, 2]), sub_heap heap0 adata0 [0] [0, 1, 2]) \<and>
   setitem (sub_heap heap0 adata0 [0] [0, 1, 2]) adata0 (Single (IStr ''k'')) (PInt 1) =
     Inr ((sub_heap heap0 adata0 [0] [0, 1, 2])\<lparr>dicts := [[(''k'', PInt 1)], []]\<rparr>) \<and>
   getitem ((sub_heap heap0 adata0 [0] [0, 1, 2])\<lparr>dicts := [[(''k'', PInt 1)], []]\<rparr>) adata0
       (Single (IStr ''k'')) =
     Inr (Value (PInt 1), (sub_heap heap0 adata0 [0] [0, 1, 2])\<lparr>dicts := [[(''k'', PInt 1)], []]\<rparr>) \<and>
   getitem ((sub_heap heap0 adata0 [0] [0, 1, 2])\<lparr>dicts := [[(''k'', PInt 1)], []]\<rparr>)
       (sub_adata heap0 adata0 [0] [0, 1, 2]) (Single (IStr ''k'')) =
     Inl (KeyError ''k'')"
  by code_simp

subsection \<open>Construction from a combined mapping\<close>

lemma fold_update_head:
  "\<exists>xs'. fold (\<lambda>(k, v) merged. AList.update k v merged) d ((k0, v0) # xs) =
          (k0, last_value k0 d v0) # xs'"
proof (induction d arbitrary: v0 xs)
  case Nil
  then show ?case by (simp add: last_value_def)
next
  case (Cons p d)
  obtain k v where p: "p = (k, v)" by (cases p)
  show ?case
  proof (cases "k = k0")
    case True
    with Cons.IH[of v xs] show ?thesis by (simp add: p last_value_def)
  next
    case False
    with Cons.IH[of v0 "AList.update k v xs"] show ?thesis by (simp add: p last_value_def)
  qed
qed

lemma last_value_absent: "k0 \<notin> fst ` set d \<Longrightarrow> last_value k0 d v0 = v0"
  by (induction d arbitrary: v0) (auto simp: last_value_def)

lemma last_value_map_of:
  "distinct (map fst d) \<Longrightarrow>
     last_value k0 d v0 = (case map_of d k0 of Some v \<Rightarrow> v | None \<Rightarrow> v0)"
proof (induction d arbitrary: v0)
  case Nil
  then show ?case by (simp add: last_value_def)
next
  case (Cons p d)
  obtain k v where p: "p = (k, v)" by (cases p)
  show ?case
  proof (cases "k = k0")
    case True
    with Cons.prems have "k0 \<notin> fst ` set d" by (simp add: p)
    from last_value_absent[OF this, of v] show ?thesis
      using True by (simp add: p last_value_def)
  next
    case False
    with Cons show ?thesis by (simp add: p last_value_def)
  qed
qed

lemma odict_merge_head:
  "\<exists>rest. odict_merge [[(k0, v0)], b, c] = (k0, last_value k0 c (last_value k0 b v0)) # rest"
proof -
  obtain xs where 1: "fold (\<lambda>(k, v) merged. AList.update k v merged) b [(k0, v0)] =
      (k0, last_value k0 b v0) # xs"
    using fold_update_head[of b k0 v0 "[]"] by blast
  obtain ys where 2: "fold (\<lambda>(k, v) merged. AList.update k v merged) c ((k0, last_value k0 b v0) # xs) =
      (k0, last_value k0 c (last_value k0 b v0)) # ys"
    using fold_update_head[of c k0 "last_value k0 b v0" xs] by blast
  show ?thesis by (simp add: odict_merge_def 1 2)
qed

lemma table_ids:
  assumes "BoundRecArr (SMap ((nc, PCol ids) # rest)) nc n = Inr t"
  shows "field t nc = Inr ids"
proof -
  from assms obtain cs where cs: "mapM asarray (map snd rest) = Inr cs"
    by (cases "mapM asarray (map snd rest)") (auto simp: BoundRecArr_def columns_of_def)
  from assms cs obtain cs' where "mapM (broadcast_to (col_len ids)) cs = Inr cs'"
    and t: "t = \<lparr>names = nc # map fst rest, cols = ids # cs', name_col = nc\<rparr>"
    by (cases "mapM (broadcast_to (col_len ids)) cs")
       (auto simp: BoundRecArr_def columns_of_def broadcast_to_same)
  show ?thesis by (simp add: t field_def)
qed


lemma pop_names_other:
  "k \<noteq> alias \<Longrightarrow> k \<noteq> name \<Longrightarrow> map_of (snd (pop_names d alias name target)) k = map_of d k"
  by (simp add: pop_names_def delete_conv' split: option.splits)

lemma pop_names_present:
  "map_of d alias \<noteq> None \<or> map_of d name \<noteq> None \<Longrightarrow>
     \<exists>l. fst (pop_names d alias name target) = [(target, l)] \<and>
         (map_of d alias = Some l \<or> map_of d alias = None \<and> map_of d name = Some l)"
  by (auto simp: pop_names_def split: option.splits)

lemma get_items_cong: "map_of d k = map_of d' k \<Longrightarrow> get_items d k = get_items d' k"
  by (simp add: get_items_def)

lemma from_ddata_tables:
  assumes "from_ddata ddata = Inr (x, s, v, kw)"
  shows "\<exists>row smp1 col var1.
           get_items ddata ''row'' = Inr row \<and> get_items ddata ''smp'' = Inr smp1 \<and>
           get_items ddata ''col'' = Inr col \<and> get_items ddata ''var'' = Inr var1 \<and>
           s = odict_merge [fst (pop_names (AList.delete ''X'' ddata) ''row_names'' ''smp_names'' ''smp_names''), row, smp1] \<and>
           v = odict_merge [fst (pop_names (snd (pop_names (AList.delete ''X'' ddata) ''row_names'' ''smp_names'' ''smp_names''))
                                  ''col_names'' ''var_names'' ''var_names''), col, var1]"
proof -
  let ?add0 = "AList.delete ''X'' ddata"
  let ?p1 = "pop_names ?add0 ''row_names'' ''smp_names'' ''smp_names''"
  let ?p2 = "pop_names (snd ?p1) ''col_names'' ''var_names'' ''var_names''"
  have k: "map_of (snd ?p2) k = map_of ddata k" if "k \<in> {''row'', ''smp'', ''col'', ''var''}" for k
    using that by (auto simp: pop_names_other delete_conv')
  have g: "get_items (snd ?p2) k = get_items ddata k" if "k \<in> {''row'', ''smp'', ''col'', ''var''}" for k
    by (rule get_items_cong) (rule k[OF that])
  from assms show ?thesis
    by (auto simp: from_ddata_def Let_def case_prod_unfold ebind_eq_Inr g split: option.splits)
qed

lemma init_body_tables:
  assumes "init_body h x s v kw = Inr (a, h')"
  shows "\<exists>n m. BoundRecArr s SMP_NAMES (Some n) = Inr (smp a) \<and>
               BoundRecArr v VAR_NAMES (Some m) = Inr (var a)"
  using assms
  by (auto simp: init_body_def ebind_eq_Inr new_dict_def Let_def
      split: sum.splits pyval.splits list.splits if_splits)

lemma BoundRecArr_head_column:
  assumes "BoundRecArr (SMap ((nc, val) # rest)) nc n = Inr t"
  shows "\<exists>ids. val = PCol ids \<and> field t nc = Inr ids"
proof (cases val)
  case (PCol ids)
  with table_ids[of nc ids rest n t] assms show ?thesis by simp
qed (use assms in \<open>simp_all add: BoundRecArr_def columns_of_def\<close>)

lemma items_last_value:
  assumes "distinct (map fst m)" and "map_of m k = Some ids"
  shows "last_value k (map (\<lambda>(n, c). (n, PCol c)) m) v0 = PCol ids"
proof -
  have d: "distinct (map fst (map (\<lambda>(n, c). (n, PCol c)) m))"
    using assms(1) by (simp add: comp_def case_prod_unfold)
  have "map_of (map (\<lambda>(n, c). (n, PCol c)) m) k = Some (PCol ids)"
    using assms(2) by (induction m) auto
  with last_value_map_of[OF d, of k v0] show ?thesis by simp
qed

lemma get_items_PDict: "map_of d k = Some (PDict m) \<Longrightarrow> get_items d k = Inr (map (\<lambda>(n, c). (n, PCol c)) m)"
  by (simp add: get_items_def)

lemma get_items_None: "map_of d k = None \<Longrightarrow> get_items d k = Inr []"
  by (simp add: get_items_def)

lemma init_ddata:
  assumes "init h (Ddata ddata) SNone SNone [] = Inr (a, h')"
  shows "\<exists>x s v kw. from_ddata ddata = Inr (x, s, v, kw) \<and>
           init_body h x (SMap s) (SMap v) kw = Inr (a, h')"
  using assms by (auto simp: init_def split: sum.splits)

lemma ddata_smp_names:
  assumes i: "init h (Ddata ddata) SNone SNone [] = Inr (a, h')"
    and e: "map_of ddata ''row_names'' \<noteq> None \<or> map_of ddata ''smp_names'' \<noteq> None"
  shows "\<exists>l row smp1 ids. get_items ddata ''row'' = Inr row \<and> get_items ddata ''smp'' = Inr smp1 \<and>
           last_value ''smp_names'' smp1 (last_value ''smp_names'' row l) = PCol ids \<and>
           smp_names a = Inr ids"
proof -
  from init_ddata[OF i] obtain x s' v kw where f: "from_ddata ddata = Inr (x, s', v, kw)"
    and b: "init_body h x (SMap s') (SMap v) kw = Inr (a, h')" by blast
  let ?add0 = "AList.delete ''X'' ddata"
  from e have "map_of ?add0 ''row_names'' \<noteq> None \<or> map_of ?add0 ''smp_names'' \<noteq> None"
    by (simp add: delete_conv')
  from pop_names_present[OF this, of "''smp_names''"] obtain l where
    l: "fst (pop_names ?add0 ''row_names'' ''smp_names'' ''smp_names'') = [(''smp_names'', l)]"
    by auto
  from from_ddata_tables[OF f] l obtain row smp1 where
    g: "get_items ddata ''row'' = Inr row" "get_items ddata ''smp'' = Inr smp1"
    and "s' = odict_merge [[(''smp_names'', l)], row, smp1]" by auto
  with odict_merge_head[of "''smp_names''" l row smp1] obtain rest where
    s': "s' = (''smp_names'', last_value ''smp_names'' smp1 (last_value ''smp_names'' row l)) # rest"
    by auto
  from init_body_tables[OF b] obtain n where "BoundRecArr (SMap s') SMP_NAMES (Some n) = Inr (smp a)"
    by blast
  from BoundRecArr_head_column[OF this[unfolded s' SMP_NAMES_def]] g
  show ?thesis by (auto simp: smp_names_def SMP_NAMES_def)
qed

lemma ddata_var_names:
  assumes i: "init h (Ddata ddata) SNone SNone [] = Inr (a, h')"
    and e: "map_of ddata ''col_names'' \<noteq> None \<or> map_of ddata ''var_names'' \<noteq> None"
  shows "\<exists>l col var1 ids. get_items ddata ''col'' = Inr col \<and> get_items ddata ''var'' = Inr var1 \<and>
           last_value ''var_names'' var1 (last_value ''var_names'' col l) = PCol ids \<and>
           var_names a = Inr ids"
proof -
  from init_ddata[OF i] obtain x s v' kw where f: "from_ddata ddata = Inr (x, s, v', kw)"
    and b: "init_body h x (SMap s) (SMap v') kw = Inr (a, h')" by blast
  let ?add1 = "snd (pop_names (AList.delete ''X'' ddata) ''row_names'' ''smp_names'' ''smp_names'')"
  from e have "map_of ?add1 ''col_names'' \<noteq> None \<or> map_of ?add1 ''var_names'' \<noteq> None"
    by (simp add: pop_names_other delete_conv')
  from pop_names_present[OF this, of "''var_names''"] obtain l where
    l: "fst (pop_names ?add1 ''col_names'' ''var_names'' ''var_names'') = [(''var_names'', l)]"
    by auto
  from from_ddata_tables[OF f] l obtain col var1 where
    g: "get_items ddata ''col'' = Inr col" "get_items ddata ''var'' = Inr var1"
    and "v' = odict_merge [[(''var_names'', l)], col, var1]" by auto
  with odict_merge_head[of "''var_names''" l col var1] obtain rest where
    v': "v' = (''var_names'', last_value ''var_names'' var1 (last_value ''var_names'' col l)) # rest"
    by auto
  from init_body_tables[OF b] obtain m where "BoundRecArr (SMap v') VAR_NAMES (Some m) = Inr (var a)"
    by blast
  from BoundRecArr_head_column[OF this[unfolded v' VAR_NAMES_def]] g
  show ?thesis by (auto simp: var_names_def VAR_NAMES_def)
qed

lemma last_value_Nil [simp]: "last_value k [] v = v"
  by (simp add: last_value_def)

text \<open>
  C4. The claim: when a combined mapping supplies an explicit row (column) identifier
  list under a reserved alias key and a nested row (column) annotation mapping with
  an identifier entry, the explicit list takes precedence.
  As amended: the identifier entry of the nested mapping takes precedence.
  \<^verbatim>\<open>odict_merge\<close> writes the explicit list first and the nested mappings after it,
  and a later write of a key overwrites the value. So the identifier column of the
  constructed table holds the values of the nested mapping under \<^verbatim>\<open>smp\<close>
  (\<^verbatim>\<open>var\<close>), or of the one under \<^verbatim>\<open>row\<close> (\<^verbatim>\<open>col\<close>) when there is no mapping under
  \<^verbatim>\<open>smp\<close> (\<^verbatim>\<open>var\<close>). \<open>m\<close> is the nested mapping, a dict (its keys are distinct).
\<close>

theorem nested_identifier_entry_wins:
  assumes "init h (Ddata ddata) SNone SNone [] = Inr (a, h')"
    and "distinct (map fst m)"
  shows "(map_of ddata ''row_names'' \<noteq> None \<or> map_of ddata ''smp_names'' \<noteq> None \<longrightarrow>
          map_of ddata ''smp'' = Some (PDict m) \<longrightarrow> map_of m ''smp_names'' = Some ids \<longrightarrow>
            smp_names a = Inr ids) \<and>
         (map_of ddata ''row_names'' \<noteq> None \<or> map_of ddata ''smp_names'' \<noteq> None \<longrightarrow>
          map_of ddata ''smp'' = None \<longrightarrow>
          map_of ddata ''row'' = Some (PDict m) \<longrightarrow> map_of m ''smp_names'' = Some ids \<longrightarrow>
            smp_names a = Inr ids) \<and>
         (map_of ddata ''col_names'' \<noteq> None \<or> map_of ddata ''var_names'' \<noteq> None \<longrightarrow>
          map_of ddata ''var'' = Some (PDict m) \<longrightarrow> map_of m ''var_names'' = Some ids \<longrightarrow>
            var_names a = Inr ids) \<and>
         (map_of ddata ''col_names'' \<noteq> None \<or> map_of ddata ''var_names'' \<noteq> None \<longrightarrow>
          map_of ddata ''var'' = None \<longrightarrow>
          map_of ddata ''col'' = Some (PDict m) \<longrightarrow> map_of m ''var_names'' = Some ids \<longrightarrow>
            var_names a = Inr ids)"
proof (intro conjI impI)
  assume e: "map_of ddata ''row_names'' \<noteq> None \<or> map_of ddata ''smp_names'' \<noteq> None"
    and n: "map_of ddata ''smp'' = Some (PDict m)" and k: "map_of m ''smp_names'' = Some ids"
  from ddata_smp_names[OF assms(1) e] show "smp_names a = Inr ids"
    by (auto simp: get_items_PDict[OF n] items_last_value[OF assms(2) k])
next
  assume e: "map_of ddata ''row_names'' \<noteq> None \<or> map_of ddata ''smp_names'' \<noteq> None"
    and n0: "map_of ddata ''smp'' = None"
    and n: "map_of ddata ''row'' = Some (PDict m)" and k: "map_of m ''smp_names'' = Some ids"
  from ddata_smp_names[OF assms(1) e] show "smp_names a = Inr ids"
    by (auto simp: get_items_PDict[OF n] get_items_None[OF n0] items_last_value[OF assms(2) k])
next
  assume e: "map_of ddata ''col_names'' \<noteq> None \<or> map_of ddata ''var_names'' \<noteq> None"
    and n: "map_of ddata ''var'' = Some (PDict m)" and k: "map_of m ''var_names'' = Some ids"
  from ddata_var_names[OF assms(1) e] show "var_names a = Inr ids"
    by (auto simp: get_items_PDict[OF n] items_last_value[OF assms(2) k])
next
  assume e: "map_of ddata ''col_names'' \<noteq> None \<or> map_of ddata ''var_names'' \<noteq> None"
    and n0: "map_of ddata ''var'' = None"
    and n: "map_of ddata ''col'' = Some (PDict m)" and k: "map_of m ''var_names'' = Some ids"
  from ddata_var_names[OF assms(1) e] show "var_names a = Inr ids"
    by (auto simp: get_items_PDict[OF n] get_items_None[OF n0] items_last_value[OF assms(2) k])
qed

theorem nested_identifier_entry_wins_witness:
  "init heap0 (Ddata ddata0) SNone SNone [] = Inr (adata1, heap0\<lparr>dicts := [[], []]\<rparr>) \<and>
   distinct (map fst [(''smp_names'', StrCol [''C'', ''D''])]) \<and>
   map_of ddata0 ''row_names'' = Some (PCol (StrCol [''A'', ''B''])) \<and>
   map_of ddata0 ''smp'' = Some (PDict [(''smp_names'', StrCol [''C'', ''D''])]) \<and>
   map_of [(''smp_names'', StrCol [''C'', ''D''])] ''smp_names'' = Some (StrCol [''C'', ''D'']) \<and>
   smp_names adata1 = Inr (StrCol [''C'', ''D''])"
proof -
  have i: "init heap0 (Ddata ddata0) SNone SNone [] = Inr (adata1, heap0\<lparr>dicts := [[], []]\<rparr>)"
    by code_simp
  have d: "distinct (map fst [(''smp_names'', StrCol [''C'', ''D''])])" by simp
  have e: "map_of ddata0 ''row_names'' = Some (PCol (StrCol [''A'', ''B'']))"
    by (simp add: ddata0_def)
  have n: "map_of ddata0 ''smp'' = Some (PDict [(''smp_names'', StrCol [''C'', ''D''])])"
    by (simp add: ddata0_def)
  have k: "map_of [(''smp_names'', StrCol [''C'', ''D''])] ''smp_names'' = Some (StrCol [''C'', ''D''])"
    by simp
  from nested_identifier_entry_wins[OF i d, of "StrCol [''C'', ''D'']"] e n k
  have "smp_names adata1 = Inr (StrCol [''C'', ''D''])" by simp
  with i d e n k show ?thesis by blast
qed

text \<open>
  C4, the claim as stated fails: with the explicit row names A, B and the nested
  mapping \<^verbatim>\<open>smp = {smp_names: [C, D]}\<close> the row table is labelled C, D.
\<close>

theorem explicit_list_overridden_counterexample:
  "map_of ddata0 ''row_names'' = Some (PCol (StrCol [''A'', ''B''])) \<and>
   init heap0 (Ddata ddata0) SNone SNone [] = Inr (adata1, heap0\<lparr>dicts := [[], []]\<rparr>) \<and>
   smp_names adata1 = Inr (StrCol [''C'', ''D''])"
  by code_simp

subsection \<open>Transposition\<close>

lemma names_neq [simp]: "SMP_NAMES \<noteq> VAR_NAMES" "VAR_NAMES \<noteq> SMP_NAMES"
  by (simp_all add: SMP_NAMES_def VAR_NAMES_def)

lemma distinct_flip_names:
  "distinct ns \<Longrightarrow> new \<notin> set ns \<Longrightarrow> distinct (flip_names old new ns)"
  by (induction ns) (auto simp: flip_names_def)

lemma flip_names_mem: "old \<in> set ns \<Longrightarrow> new \<in> set (flip_names old new ns)"
  by (induction ns) (auto simp: flip_names_def)

lemma flip_names_old: "old \<noteq> new \<Longrightarrow> old \<notin> set (flip_names old new ns)"
  by (induction ns) (auto simp: flip_names_def)

lemma flip_names_back: "new \<notin> set ns \<Longrightarrow> flip_names new old (flip_names old new ns) = ns"
  by (induction ns) (auto simp: flip_names_def)

lemma len_names_upd [simp]: "len (r\<lparr>names := ns\<rparr>) = len r"
  by (simp add: len_def)

lemma flipped_smp:
  assumes "wf_rec r SMP_NAMES" and "VAR_NAMES \<notin> set (names r)"
  shows "flipped r = Inr (r\<lparr>names := flip_names SMP_NAMES VAR_NAMES (names r), name_col := VAR_NAMES\<rparr>)"
  using assms distinct_flip_names[of "names r" VAR_NAMES SMP_NAMES]
  by (simp add: flipped_def wf_rec_def BoundRecArr_bound Let_def flip_names_def)

lemma flipped_var:
  assumes "wf_rec r VAR_NAMES" and "SMP_NAMES \<notin> set (names r)"
  shows "flipped r = Inr (r\<lparr>names := flip_names VAR_NAMES SMP_NAMES (names r), name_col := SMP_NAMES\<rparr>)"
  using assms distinct_flip_names[of "names r" SMP_NAMES VAR_NAMES]
  by (simp add: flipped_def wf_rec_def BoundRecArr_bound Let_def flip_names_def)

lemma wf_rec_flip:
  assumes "wf_rec r old" and "new \<notin> set (names r)"
  shows "wf_rec (r\<lparr>names := flip_names old new (names r), name_col := new\<rparr>) new"
  using assms
  by (simp add: wf_rec_def distinct_flip_names flip_names_mem) (simp add: flip_names_def)

lemma arr_T_shape: "arr_T (Arr2 r c rows) = Arr2 c r (map (\<lambda>j. map (\<lambda>i. rows ! i ! j) [0..<r]) [0..<c])"
  by simp

lemma wf_arr_T: "wf_arr (arr_T (Arr2 r c rows))"
  by (simp add: list_all_iff)

lemma arr_T_T: "wf_arr (Arr2 r c rows) \<Longrightarrow> arr_T (arr_T (Arr2 r c rows)) = Arr2 r c rows"
proof -
  assume w: "wf_arr (Arr2 r c rows)"
  then have l: "length rows = r" and a: "\<And>i. i < r \<Longrightarrow> length (rows ! i) = c"
    by (auto simp: list_all_length)
  have "map (\<lambda>i. map (\<lambda>j. map (\<lambda>j. map (\<lambda>i. rows ! i ! j) [0..<r]) [0..<c] ! j ! i) [0..<c]) [0..<r] = rows"
  proof (rule nth_equalityI)
    show "length (map (\<lambda>i. map (\<lambda>j. map (\<lambda>j. map (\<lambda>i. rows ! i ! j) [0..<r]) [0..<c] ! j ! i) [0..<c]) [0..<r]) = length rows"
      by (simp add: l)
  next
    fix i assume "i < length (map (\<lambda>i. map (\<lambda>j. map (\<lambda>j. map (\<lambda>i. rows ! i ! j) [0..<r]) [0..<c] ! j ! i) [0..<c]) [0..<r])"
    then have i: "i < r" by simp
    have "map (\<lambda>j. map (\<lambda>j. map (\<lambda>i. rows ! i ! j) [0..<r]) [0..<c] ! j ! i) [0..<c] = rows ! i"
      by (rule nth_equalityI) (simp_all add: a[OF i] i)
    with i show "map (\<lambda>i. map (\<lambda>j. map (\<lambda>j. map (\<lambda>i. rows ! i ! j) [0..<r]) [0..<c] ! j ! i) [0..<c]) [0..<r] ! i = rows ! i"
      by simp
  qed
  then show ?thesis by simp
qed


lemma transpose_ok:
  assumes v: "valid h self"
    and n1: "VAR_NAMES \<notin> set (names (smp self))" and n2: "SMP_NAMES \<notin> set (names (var self))"
  shows "transpose h self = Inr (transposed h self, transposed_heap h self)"
proof -
  from v have X: "arr (arrays h ! X self) = Arr2 (n_smp h self) (n_var h self) (matrix h self)"
    and ls: "len (smp self) = n_smp h self" and lv: "len (var self) = n_var h self"
    and ws: "wf_rec (smp self) SMP_NAMES" and wv: "wf_rec (var self) VAR_NAMES"
    and st: "check_storage_type (cls (arrays h ! X self)) = Inr (storage_type self)"
    and kw: "kwargs_ok (dicts h ! add self)"
    by (simp_all add: valid_def)
  let ?s = "(smp self)\<lparr>names := flip_names SMP_NAMES VAR_NAMES (names (smp self)), name_col := VAR_NAMES\<rparr>"
  let ?v = "(var self)\<lparr>names := flip_names VAR_NAMES SMP_NAMES (names (var self)), name_col := SMP_NAMES\<rparr>"
  let ?h1 = "h\<lparr>arrays := arrays h @ [\<lparr>cls = cls (arrays h ! X self), arr = arr_T (arr (arrays h ! X self))\<rparr>]\<rparr>"
  from ws have cs1: "cols (smp self) \<noteq> []" "list_all (\<lambda>c. col_len c = len (smp self)) (cols (smp self))"
    by (simp_all add: wf_rec_def)
  from wv have cs2: "cols (var self) \<noteq> []" "list_all (\<lambda>c. col_len c = len (var self)) (cols (var self))"
    by (simp_all add: wf_rec_def)
  have ib: "init_body ?h1 (PRef (length (arrays h))) (SBound ?v) (SBound ?s) (dicts h ! add self) =
      Inr (transposed h self, transposed_heap h self)"
    apply (subst init_body_bound[where r="n_var h self" and c="n_smp h self" and st="storage_type self"
          and rows="map (\<lambda>j. map (\<lambda>i. matrix h self ! i ! j) [0..<n_smp h self]) [0..<n_var h self]"])
    using cs1 cs2 st ls lv
    by (simp_all add: X transposed_def transposed_heap_def)
  show ?thesis
    using kw ib
    by (simp add: transpose_def new_array_def flipped_smp[OF ws n1] flipped_var[OF wv n2]
        call_AnnData_def kwargs_ok_def init_def)
qed

lemma valid_shape:
  assumes "valid h self"
  obtains r c rows where "arr (arrays h ! X self) = Arr2 r c rows" and "n_smp h self = r"
    and "n_var h self = c" and "matrix h self = rows" and "wf_arr (Arr2 r c rows)"
proof -
  from assms have a: "arr (arrays h ! X self) = Arr2 (n_smp h self) (n_var h self) (matrix h self)"
    and w: "wf_arr (arr (arrays h ! X self))"
    unfolding valid_def by blast+
  from w have "wf_arr (Arr2 (n_smp h self) (n_var h self) (matrix h self))"
    by (simp only: a)
  with a that show thesis by blast
qed

lemma transposed_shape:
  assumes "arr (arrays h ! X self) = Arr2 r c rows"
  shows "arr (arrays (transposed_heap h self) ! X (transposed h self)) =
           Arr2 c r (map (\<lambda>j. map (\<lambda>i. rows ! i ! j) [0..<r]) [0..<c])"
    and "n_smp (transposed_heap h self) (transposed h self) = c"
    and "n_var (transposed_heap h self) (transposed h self) = r"
    and "matrix (transposed_heap h self) (transposed h self) =
           map (\<lambda>j. map (\<lambda>i. rows ! i ! j) [0..<r]) [0..<c]"
  using assms by (simp_all add: transposed_heap_def transposed_def n_smp_def n_var_def matrix_def)

lemma valid_transposed:
  assumes v: "valid h self"
    and n1: "VAR_NAMES \<notin> set (names (smp self))" and n2: "SMP_NAMES \<notin> set (names (var self))"
  shows "valid (transposed_heap h self) (transposed h self)"
proof -
  from v obtain r c rows where A: "arr (arrays h ! X self) = Arr2 r c rows"
    and r: "n_smp h self = r" and c: "n_var h self = c"
    by (rule valid_shape)
  from v have ls: "len (smp self) = n_smp h self" and lv: "len (var self) = n_var h self"
    and ws: "wf_rec (smp self) SMP_NAMES" and wv: "wf_rec (var self) VAR_NAMES"
    and st: "check_storage_type (cls (arrays h ! X self)) = Inr (storage_type self)"
    and kw: "kwargs_ok (dicts h ! add self)"
    unfolding valid_def by blast+
  have 1: "X (transposed h self) < length (arrays (transposed_heap h self))"
    "add (transposed h self) < length (dicts (transposed_heap h self))"
    by (simp_all add: transposed_def transposed_heap_def)
  have 2: "wf_arr (arr (arrays (transposed_heap h self) ! X (transposed h self)))"
    by (simp add: transposed_shape(1)[OF A] list_all_iff)
  have 3: "check_storage_type (cls (arrays (transposed_heap h self) ! X (transposed h self))) =
      Inr (storage_type (transposed h self))"
    using st by (simp add: transposed_def transposed_heap_def)
  have 4: "wf_rec (smp (transposed h self)) SMP_NAMES" "wf_rec (var (transposed h self)) VAR_NAMES"
    using wf_rec_flip[OF ws n1] wf_rec_flip[OF wv n2] by (simp_all add: transposed_def)
  have 5: "len (smp (transposed h self)) = c" "len (var (transposed h self)) = r"
    using ls lv r c by (simp_all add: transposed_def)
  have 6: "kwargs_ok (dicts (transposed_heap h self) ! add (transposed h self))"
    using kw by (simp add: transposed_def transposed_heap_def)
  show ?thesis
    unfolding valid_def
    using 1 2 3 4 5 6 transposed_shape[OF A] by simp
qed

text \<open>
  C7. The claim: for every validly constructed container, Transpose applied twice
  yields the original matrix and the original identifier sequences, and a single
  Transpose does not mutate the original instance.
  As amended: this holds for every well-formed container whose row table has no
  column named \<^verbatim>\<open>var_names\<close> and whose column table has no column named
  \<^verbatim>\<open>smp_names\<close>. Then Transpose returns the container \<open>transposed\<close>, transposing that
  one returns a container with the original matrix, tables and identifier sequences,
  and in the heap after the first transposition every object that existed before is
  unchanged (the instance itself is a value here, and \<^verbatim>\<open>flipped\<close> builds new tables).
\<close>

theorem transpose_twice:
  assumes v: "valid h self"
    and n1: "VAR_NAMES \<notin> set (names (smp self))" and n2: "SMP_NAMES \<notin> set (names (var self))"
  shows "transpose h self = Inr (transposed h self, transposed_heap h self) \<and>
         (\<exists>a2 h2. transpose (transposed_heap h self) (transposed h self) = Inr (a2, h2) \<and>
            arr (arrays h2 ! X a2) = arr (arrays h ! X self) \<and>
            smp a2 = smp self \<and> var a2 = var self \<and>
            smp_names a2 = smp_names self \<and> var_names a2 = var_names self) \<and>
         take (length (arrays h)) (arrays (transposed_heap h self)) = arrays h \<and>
         take (length (dicts h)) (dicts (transposed_heap h self)) = dicts h \<and>
         arrays (transposed_heap h self) ! X self = arrays h ! X self \<and>
         dicts (transposed_heap h self) ! add self = dicts h ! add self"
proof -
  let ?a1 = "transposed h self" and ?h1 = "transposed_heap h self"
  from v obtain r c rows where A: "arr (arrays h ! X self) = Arr2 r c rows"
    and w: "wf_arr (Arr2 r c rows)"
    by (rule valid_shape)
  from v have xl: "X self < length (arrays h)" and al: "add self < length (dicts h)"
    and ws: "wf_rec (smp self) SMP_NAMES" and wv: "wf_rec (var self) VAR_NAMES"
    unfolding valid_def by blast+
  have t1: "transpose h self = Inr (?a1, ?h1)"
    by (rule transpose_ok[OF v n1 n2])
  have v1: "valid ?h1 ?a1"
    by (rule valid_transposed[OF v n1 n2])
  have m1: "VAR_NAMES \<notin> set (names (smp ?a1))"
    by (simp add: transposed_def flip_names_old)
  have m2: "SMP_NAMES \<notin> set (names (var ?a1))"
    by (simp add: transposed_def flip_names_old)
  have t2: "transpose ?h1 ?a1 = Inr (transposed ?h1 ?a1, transposed_heap ?h1 ?a1)"
    by (rule transpose_ok[OF v1 m1 m2])
  have x2: "arr (arrays (transposed_heap ?h1 ?a1) ! X (transposed ?h1 ?a1)) = arr (arrays h ! X self)"
    using arr_T_T[OF w] by (simp add: transposed_shape(1)[OF transposed_shape(1)[OF A]] A)
  from ws wv have nc: "name_col (smp self) = SMP_NAMES" "name_col (var self) = VAR_NAMES"
    by (simp_all add: wf_rec_def)
  have s2: "smp (transposed ?h1 ?a1) = smp self"
    using nc by (simp add: transposed_def flip_names_back[OF n1])
  have v2: "var (transposed ?h1 ?a1) = var self"
    using nc by (simp add: transposed_def flip_names_back[OF n2])
  have fr: "take (length (arrays h)) (arrays ?h1) = arrays h"
      "take (length (dicts h)) (dicts ?h1) = dicts h"
      "arrays ?h1 ! X self = arrays h ! X self" "dicts ?h1 ! add self = dicts h ! add self"
    using xl al by (simp_all add: transposed_heap_def nth_append)
  show ?thesis
    using t1 t2 x2 s2 v2 fr by (simp add: smp_names_def var_names_def)
qed

theorem transpose_twice_witness:
  "valid heap0 adata0 \<and> VAR_NAMES \<notin> set (names (smp adata0)) \<and>
   SMP_NAMES \<notin> set (names (var adata0)) \<and>
   transpose heap0 adata0 = Inr (transposed heap0 adata0, transposed_heap heap0 adata0) \<and>
   matrix (transposed_heap heap0 adata0) (transposed heap0 adata0) = [[1, 4], [2, 5], [3, 6]] \<and>
   (\<exists>a2 h2. transpose (transposed_heap heap0 adata0) (transposed heap0 adata0) = Inr (a2, h2) \<and>
      arr (arrays h2 ! X a2) = Arr2 2 3 [[1, 2, 3], [4, 5, 6]] \<and>
      smp_names a2 = Inr (StrCol [''A'', ''B'']) \<and>
      var_names a2 = Inr (StrCol [''a'', ''b'', ''c'']))"
proof -
  have n1: "VAR_NAMES \<notin> set (names (smp adata0))"
    by (simp add: adata0_def VAR_NAMES_def)
  have n2: "SMP_NAMES \<notin> set (names (var adata0))"
    by (simp add: adata0_def SMP_NAMES_def)
  have m: "matrix (transposed_heap heap0 adata0) (transposed heap0 adata0) = [[1, 4], [2, 5], [3, 6]]"
    by code_simp
  have x: "arr (arrays heap0 ! X adata0) = Arr2 2 3 [[1, 2, 3], [4, 5, 6]]"
    by (simp add: heap0_def adata0_def)
  have s: "smp_names adata0 = Inr (StrCol [''A'', ''B''])" by code_simp
  have v: "var_names adata0 = Inr (StrCol [''a'', ''b'', ''c''])" by code_simp
  from transpose_twice[OF valid0 n1 n2] valid0 n1 n2 m show ?thesis
    unfolding x s v by blast
qed

text \<open>
  C7, the claim as stated fails for a container that the constructor accepts: with a
  row annotation column named \<^verbatim>\<open>var_names\<close>, \<^verbatim>\<open>flipped\<close> renames \<^verbatim>\<open>smp_names\<close> to a
  name that is taken, and Transpose raises.
\<close>

theorem transpose_name_clash_counterexample:
  "init (heap0\<lparr>dicts := []\<rparr>) (Xarg (PRef 0))
     (SMap [(''smp_names'', PCol (StrCol [''A'', ''B''])), (''var_names'', PCol (StrCol [''x'', ''y'']))])
     (SMap [(''var_names'', PCol (StrCol [''a'', ''b'', ''c'']))]) [] = Inr (adata2, heap0) \<and>
   valid heap0 adata2 \<and>
   transpose heap0 adata2 = Inl (ValueError ''Duplicate field names given.'')"
  by code_simp

subsection \<open>Well-formedness is what the constructor establishes\<close>

text \<open>
  A container that \<^verbatim>\<open>__init__\<close> returns for a well-formed matrix, annotation sources
  as above and keyword arguments is well-formed, and so is every sub-container.
\<close>

lemma mapM_length: "mapM f xs = Inr ys \<Longrightarrow> length ys = length xs"
  by (induction xs arbitrary: ys) (auto split: sum.splits)

lemma mapM_all:
  "mapM f xs = Inr ys \<Longrightarrow> (\<And>x y. f x = Inr y \<Longrightarrow> P y) \<Longrightarrow> list_all P ys"
  by (induction xs arbitrary: ys) (auto split: sum.splits)

lemma broadcast_to_len: "broadcast_to n c = Inr c' \<Longrightarrow> col_len c' = n"
  by (cases c) (auto split: if_splits)

lemma columns_of_ok:
  assumes "columns_of src nc n = Inr (ns, cs)" and "source_ok src nc"
  shows "length ns = length cs \<and> distinct ns \<and> nc \<in> set ns"
proof (cases src)
  case (SMap m)
  with assms show ?thesis
    by (auto simp: columns_of_def image_iff dest: mapM_length split: sum.splits if_splits) force+
qed (use assms in \<open>auto simp: columns_of_def split: sum.splits\<close>)

lemma BoundRecArr_wf:
  assumes "BoundRecArr src nc n = Inr t" and "source_ok src nc"
  shows "wf_rec t nc"
proof -
  from assms(1) obtain ns cs where c: "columns_of src nc n = Inr (ns, cs)"
    by (cases "columns_of src nc n") (auto simp: BoundRecArr_def)
  from columns_of_ok[OF c assms(2)]
  have k: "length ns = length cs" "distinct ns" "nc \<in> set ns" by simp_all
  from assms(1) c obtain c0 cs0 cs' where cs: "cs = c0 # cs0"
    and m: "mapM (broadcast_to (col_len c0)) cs = Inr cs'"
    and t: "t = \<lparr>names = ns, cols = cs', name_col = nc\<rparr>"
    by (cases cs; cases "mapM (broadcast_to (col_len (hd cs))) cs") (auto simp: BoundRecArr_def)
  from mapM_length[OF m] have l: "length cs' = length cs" .
  have a: "list_all (\<lambda>c. col_len c = col_len c0) cs'"
    by (rule mapM_all[OF m]) (rule broadcast_to_len)
  from l cs obtain d ds where d: "cs' = d # ds" by (cases cs') auto
  with a have "col_len d = col_len c0" by simp
  then have "len t = col_len c0" by (simp add: t d len_def)
  with k l a show ?thesis by (simp add: wf_rec_def t d)
qed

lemma init_body_valid:
  assumes i: "init_body h x s v kw = Inr (ad, h')"
    and w: "\<forall>a. x = PRef a \<longrightarrow> wf_arr (arr (arrays h ! a))"
    and k: "kwargs_ok kw" and s: "source_ok s SMP_NAMES" and v: "source_ok v VAR_NAMES"
  shows "valid h' ad"
proof -
  from i obtain a st where x: "x = PRef a" and c: "check_storage_type (class_of h x) = Inr st"
    by (cases x; cases "check_storage_type (class_of h x)") (auto simp: init_body_def)
  from c x have al: "a < length (arrays h)" and cl: "class_of h x = cls (arrays h ! a)"
    by (auto simp: class_of_def check_storage_type_cases split: if_splits)
  let ?ob = "arrays h ! a"
  let ?h1 = "if length (shape (arr ?ob)) = 1
             then h\<lparr>arrays := (arrays h)[a := ?ob\<lparr>arr := as_column (arr ?ob)\<rparr>]\<rparr> else h"
  let ?data = "arr (arrays ?h1 ! a)"
  from i x c obtain r c' where sh: "shape ?data = [r, c']"
    by (auto simp: init_body_def Let_def split: list.splits)
  from i x c sh obtain smp1 var1 where
    b1: "BoundRecArr s SMP_NAMES (Some r) = Inr smp1" and b2: "BoundRecArr v VAR_NAMES (Some c') = Inr var1"
    and cd: "check_dimensions ?data smp1 var1 = Inr ()"
    and ad: "ad = \<lparr>storage_type = st, X = a, smp = smp1, var = var1, add = length (dicts h)\<rparr>"
    and h': "h' = ?h1\<lparr>dicts := dicts h @ [kw]\<rparr>"
    by (auto simp: init_body_def Let_def ebind_eq_Inr new_dict_def split: if_splits)
  from w x have wa: "wf_arr (arr ?ob)" by simp
  have wd: "wf_arr ?data" and dc: "cls (arrays ?h1 ! a) = cls ?ob"
    using wa al by (cases "arr ?ob"; auto simp: list_all_iff)+
  from sh wd obtain rows where d: "?data = Arr2 r c' rows"
    by (cases ?data) auto
  from cd sh have ln: "len smp1 = r" "len var1 = c'"
    by (auto simp: check_dimensions_def split: if_splits)
  have 1: "arrays h' ! X ad = arrays ?h1 ! a" "dicts h' ! add ad = kw"
    "X ad < length (arrays h')" "add ad < length (dicts h')"
    using al by (auto simp: ad h')
  show ?thesis
    unfolding valid_def n_smp_def n_var_def matrix_def 1
    using 1(3,4) d wd dc c cl ln k BoundRecArr_wf[OF b1 s] BoundRecArr_wf[OF b2 v]
    by (simp add: ad)
qed


lemma init_valid:
  assumes "init h (Xarg (PRef a)) s v kw = Inr (ad, h')" and "wf_arr (arr (arrays h ! a))"
    and "kwargs_ok kw" and "source_ok s SMP_NAMES" and "source_ok v VAR_NAMES"
  shows "valid h' ad"
proof -
  from assms(1) have "init_body h (PRef a) s v kw = Inr (ad, h')"
    by (simp add: init_def)
  from init_body_valid[OF this _ assms(3-5)] assms(2) show ?thesis by simp
qed

lemma valid_sub:
  assumes "valid h self"
  shows "valid (sub_heap h self rs cs) (sub_adata h self rs cs)"
proof -
  from assms have ws: "wf_rec (smp self) SMP_NAMES" and wv: "wf_rec (var self) VAR_NAMES"
    and st: "check_storage_type (cls (arrays h ! X self)) = Inr (storage_type self)"
    and kw: "kwargs_ok (dicts h ! add self)"
    unfolding valid_def by blast+
  from ws wv have c: "cols (smp self) \<noteq> []" "cols (var self) \<noteq> []"
    by (simp_all add: wf_rec_def)
  have 1: "arrays (sub_heap h self rs cs) ! X (sub_adata h self rs cs) =
      \<lparr>cls = cls (arrays h ! X self),
        arr = Arr2 (length rs) (length cs) (map (\<lambda>i. map (\<lambda>j. matrix h self ! i ! j) cs) rs)\<rparr>"
    "dicts (sub_heap h self rs cs) ! add (sub_adata h self rs cs) = dicts h ! add self"
    by (simp_all add: sub_heap_def sub_adata_def)
  show ?thesis
    unfolding valid_def n_smp_def n_var_def matrix_def 1
    using st kw wf_rec_take[OF ws, of rs] wf_rec_take[OF wv, of cs] len_take[OF c(1), of rs]
      len_take[OF c(2), of cs]
    by (simp add: sub_adata_def sub_heap_def list_all_iff)
qed

end
